theory Spec2Isabelle
  imports Main
begin

section \<open>Python strings\<close>

text \<open>
  Text is modelled as \<^typ>\<open>string\<close>; one \<^typ>\<open>char\<close> stands for one code point of the
  ASCII range, on which the functions below agree with Python's \<^verbatim>\<open>str\<close> methods. Code
  points outside ASCII are left alone by \<open>upper\<close> and are never whitespace here.
\<close>

text \<open>\<^verbatim>\<open>str.isspace\<close> on one ASCII character: tab, newline, vertical tab, form feed,
  carriage return, the four separators 0x1C..0x1F and the blank.\<close>

definition isspace :: "char \<Rightarrow> bool" where
  "isspace c = (c \<in> set [CHR 0x09, CHR 0x0A, CHR 0x0B, CHR 0x0C, CHR 0x0D,
                          CHR 0x1C, CHR 0x1D, CHR 0x1E, CHR 0x1F, CHR '' ''])"

text \<open>\<^verbatim>\<open>s.strip()\<close>\<close>

definition strip :: "string \<Rightarrow> string" where
  "strip s = rev (dropWhile isspace (rev (dropWhile isspace s)))"

text \<open>\<^verbatim>\<open>s.startswith(p)\<close>\<close>

definition startswith :: "string \<Rightarrow> string \<Rightarrow> bool" where
  "startswith s p = (take (length p) s = p)"

text \<open>\<^verbatim>\<open>sub in s\<close>\<close>

fun contains :: "string \<Rightarrow> string \<Rightarrow> bool" where
  "contains sub [] = (sub = [])"
| "contains sub (c # cs) = (startswith (c # cs) sub \<or> contains sub cs)"

text \<open>\<^verbatim>\<open>s.split(sep)\<close> for a non-empty separator (Python raises \<^verbatim>\<open>ValueError\<close> on
  an empty one; every separator of the program is a non-empty literal). The text is scanned
  from the left, and a match of the separator closes the current piece.\<close>

fun split_sep :: "string \<Rightarrow> string \<Rightarrow> string list" where
  "split_sep sep [] = [[]]"
| "split_sep sep (c # cs) =
     (if sep \<noteq> [] \<and> startswith (c # cs) sep
      then [] # split_sep sep (drop (length sep - 1) cs)
      else (case split_sep sep cs of
              [] \<Rightarrow> [[c]]
            | w # ws \<Rightarrow> (c # w) # ws))"

text \<open>\<^verbatim>\<open>s.split()\<close>: the maximal runs of non-whitespace characters, in order. The first
  argument is the word being read, reversed.\<close>

fun split_ws_acc :: "string \<Rightarrow> string \<Rightarrow> string list" where
  "split_ws_acc cur [] = (if cur = [] then [] else [rev cur])"
| "split_ws_acc cur (c # cs) =
     (if isspace c
      then (if cur = [] then split_ws_acc [] cs else rev cur # split_ws_acc [] cs)
      else split_ws_acc (c # cur) cs)"

definition split_ws :: "string \<Rightarrow> string list" where
  "split_ws s = split_ws_acc [] s"

text \<open>\<^verbatim>\<open>s.replace(old, new)\<close> for a non-empty \<open>old\<close>: the non-overlapping matches, from
  the left.\<close>

fun replace :: "string \<Rightarrow> string \<Rightarrow> string \<Rightarrow> string" where
  "replace old new [] = []"
| "replace old new (c # cs) =
     (if old \<noteq> [] \<and> startswith (c # cs) old
      then new @ replace old new (drop (length old - 1) cs)
      else c # replace old new cs)"

text \<open>\<^verbatim>\<open>s.upper()\<close> on ASCII: the letters a..z move to A..Z.\<close>

definition upper_char :: "char \<Rightarrow> char" where
  "upper_char c =
     (let n = (of_char c :: nat) in if 97 \<le> n \<and> n \<le> 122 then char_of (n - 32) else c)"

definition upper :: "string \<Rightarrow> string" where
  "upper s = map upper_char s"

text \<open>\<^verbatim>\<open>str(n)\<close> for an integer, as an f-string prints it.\<close>

fun str_nat :: "nat \<Rightarrow> string" where
  "str_nat n =
     (if n < 10 then [char_of (48 + n)] else str_nat (n div 10) @ [char_of (48 + n mod 10)])"

definition str_int :: "int \<Rightarrow> string" where
  "str_int i = (if i < 0 then CHR ''-'' # str_nat (nat (- i)) else str_nat (nat i))"

section \<open>Exceptions\<close>

datatype error =
    IndexError
  | KeyError
  | AttributeError
  | ValueError
  | ProviderError
  | SqliteError
  | GraphRecursionError

section \<open>The verdict parser of the reporter\<close>

text \<open>Lines 328 to 350 of \<^verbatim>\<open>reporter_node\<close>. The split on the delimiter and
  \<^verbatim>\<open>parts[0]\<close> stand before the \<^verbatim>\<open>try\<close>, so an exception there would leave the node;
  everything after is inside the \<^verbatim>\<open>try\<close>, whose handler sets \<^verbatim>\<open>UNVERIFIED\<close>.\<close>

definition DELIMITER :: string where
  "DELIMITER = ''---DETAILED_REPORT_START---''"

definition MARKER :: string where
  "MARKER = ''**Verdict:**''"

definition VALID_VERDICTS :: "string list" where
  "VALID_VERDICTS = [''TRUE'', ''FALSE'', ''MISLEADING'', ''UNVERIFIED'']"

definition parse_verdict :: "string \<Rightarrow> error + string" where
  "parse_verdict final_report_content =
     (case split_sep DELIMITER final_report_content of
        [] \<Rightarrow> Inl IndexError
      | part0 # _ \<Rightarrow>
          (let ui_summary_part = strip part0 in
           if contains MARKER ui_summary_part then
             (case drop 1 (split_sep MARKER ui_summary_part) of
                [] \<Rightarrow> Inr ''UNVERIFIED''
              | part1 # _ \<Rightarrow>
                  (let verdict_line = strip part1 in
                   case split_ws verdict_line of
                     [] \<Rightarrow> Inr ''UNVERIFIED''
                   | word0 # _ \<Rightarrow>
                       (let verdict_word = upper (replace ''**'' '''' word0) in
                        if verdict_word \<in> set VALID_VERDICTS then Inr verdict_word
                        else Inr ''UNVERIFIED'')))
           else Inr ''UNVERIFIED''))"

subsection \<open>The parse step as the specification words it\<close>

text \<open>The text before the first match of a separator (all of it when there is none), and the
  text after that match.\<close>

fun before_first :: "string \<Rightarrow> string \<Rightarrow> string" where
  "before_first sep [] = []"
| "before_first sep (c # cs) =
     (if sep \<noteq> [] \<and> startswith (c # cs) sep then [] else c # before_first sep cs)"

fun after_first :: "string \<Rightarrow> string \<Rightarrow> string" where
  "after_first sep [] = []"
| "after_first sep (c # cs) =
     (if sep \<noteq> [] \<and> startswith (c # cs) sep then drop (length sep) (c # cs)
      else after_first sep cs)"

text \<open>The first whitespace-delimited word of a text, if it has one.\<close>

definition first_word :: "string \<Rightarrow> string option" where
  "first_word s =
     (case dropWhile isspace s of
        [] \<Rightarrow> None
      | w # ws \<Rightarrow> Some (takeWhile (\<lambda>c. \<not> isspace c) (w # ws)))"

text \<open>The text between the first match of a marker and the next one (or the end).\<close>

definition segment :: "string \<Rightarrow> string \<Rightarrow> string" where
  "segment M s = before_first M (after_first M s)"

text \<open>Markup stripped, uppercased, and checked against the four tokens; no word, or a word
  that is no token, gives \<^verbatim>\<open>UNVERIFIED\<close>.\<close>

definition verdict_of_word :: "string option \<Rightarrow> string" where
  "verdict_of_word w =
     (case w of
        None \<Rightarrow> ''UNVERIFIED''
      | Some word \<Rightarrow>
          (let token = upper (replace ''**'' '''' word) in
           if token \<in> set VALID_VERDICTS then token else ''UNVERIFIED''))"

text \<open>The specification: isolate the summary section, locate the marker, take the first
  whitespace-delimited word after it.\<close>

definition spec_parse_verdict :: "string \<Rightarrow> string" where
  "spec_parse_verdict report =
     (let summary = before_first DELIMITER report in
      if contains MARKER summary
      then verdict_of_word (first_word (after_first MARKER summary))
      else ''UNVERIFIED'')"

text \<open>The same, with the text after the marker ending at the next match of the marker.\<close>

definition marked_parse_verdict :: "string \<Rightarrow> string" where
  "marked_parse_verdict report =
     (let summary = before_first DELIMITER report in
      if contains MARKER summary
      then verdict_of_word (first_word (segment MARKER summary))
      else ''UNVERIFIED'')"

section \<open>The world outside the program\<close>

text \<open>
  The language model, the search tool, the page fetch, \<^verbatim>\<open>urllib.parse.urlparse\<close>,
  \<^verbatim>\<open>random.choice\<close>, the clock and the faults of the SQLite file are inputs of the model.
  The model and the search tool answer the \<open>n\<close>-th call of a run with a text or fail
  (\<open>None\<close>: the call raises); their answers may depend on the prompt in any way, since every
  theorem ranges over all such answer sequences. \<open>netloc env url\<close> is
  \<^verbatim>\<open>urlparse(url).netloc\<close>, \<open>None\<close> when \<^verbatim>\<open>urlparse\<close> raises \<^verbatim>\<open>ValueError\<close>.
  \<open>db_fault env op\<close> says that the SQLite statement \<open>op\<close> raises.
\<close>

datatype db_op =
    ReputationSelect
  | ReputationUpsert
  | HistoryInsert
  | HistorySelect
  | SourceInsert
  | HistoryDelete

record env =
  llm :: "nat \<Rightarrow> string option"
  search_tool :: "nat \<Rightarrow> string option"
  fetch_page :: "string \<Rightarrow> string option"
  netloc :: "string \<Rightarrow> string option"
  random_choice :: nat
  now :: string
  db_fault :: "db_op \<Rightarrow> bool"

section \<open>The SQLite file\<close>

text \<open>The three tables of \<^verbatim>\<open>satyamitra.db\<close> (\<^verbatim>\<open>lifespan\<close> in \<^verbatim>\<open>server.py\<close>).
  \<^verbatim>\<open>domain_reputation\<close> has the domain as primary key, so it is a map; the other two are
  lists of rows in insertion order, each with the counter of its \<^verbatim>\<open>AUTOINCREMENT\<close> key (the
  largest id given so far).\<close>

record history_row =
  h_id :: int
  h_user_id :: string
  h_claim_text :: string
  h_verdict :: string
  h_origin_city :: string
  h_origin_country :: string
  h_user_role :: string
  h_timestamp :: string

record source_row =
  s_id :: int
  s_claim_id :: int
  s_source_type :: string
  s_source_identifier :: string
  s_verdict :: string

record database =
  domain_reputation :: "string \<rightharpoonup> (string \<times> int)"
  verification_history :: "history_row list"
  history_seq :: int
  source_logs :: "source_row list"
  source_seq :: int

subsection \<open>The reputation cache (\<^verbatim>\<open>agent.py\<close>, lines 44 to 91)\<close>

text \<open>\<^verbatim>\<open>check_internal_db\<close>: every exception inside is caught and gives \<^verbatim>\<open>None\<close>.\<close>

definition check_internal_db :: "env \<Rightarrow> string \<Rightarrow> database \<Rightarrow> string option" where
  "check_internal_db env url db =
     (case netloc env url of
        None \<Rightarrow> None
      | Some nl \<Rightarrow>
          (let domain = replace ''www.'' '''' nl in
           if db_fault env ReputationSelect then None
           else (case domain_reputation db domain of
                   None \<Rightarrow> None
                 | Some (status, confidence) \<Rightarrow>
                     Some (''INTERNAL RECORD FOUND: '' @ domain @ '' is confirmed as **''
                           @ status @ ''** (Confidence: '' @ str_int confidence @ ''%).''))))"

text \<open>\<^verbatim>\<open>status_map.get(key, ("UNVERIFIED", 50))\<close>\<close>

definition status_map_get :: "string \<Rightarrow> string \<times> int" where
  "status_map_get key =
     (if key = ''TRUE'' then (''TRUSTED'', 90)
      else if key = ''FALSE'' then (''PROPAGANDA'', 95)
      else if key = ''MISLEADING'' then (''UNVERIFIED'', 70)
      else if key = ''UNVERIFIED'' then (''UNVERIFIED'', 50)
      else (''UNVERIFIED'', 50))"

text \<open>\<^verbatim>\<open>update_internal_db\<close>: an empty url or verdict returns at once; every exception
  after that is caught, and nothing is written.\<close>

definition update_internal_db :: "env \<Rightarrow> string \<Rightarrow> string \<Rightarrow> string \<Rightarrow> database \<Rightarrow> database" where
  "update_internal_db env url verdict original_claim db =
     (if url = [] \<or> verdict = [] then db
      else (case netloc env url of
              None \<Rightarrow> db
            | Some nl \<Rightarrow>
                (let domain = replace ''www.'' '''' nl;
                     entry = status_map_get (upper verdict) in
                 if db_fault env ReputationUpsert then db
                 else db\<lparr>domain_reputation := (domain_reputation db)(domain \<mapsto> entry)\<rparr>)))"

text \<open>The table of the specification, read as written: it is looked up with the token
  itself.\<close>

definition spec_status_pair :: "string \<Rightarrow> string \<times> int" where
  "spec_status_pair token =
     (if token = ''TRUE'' then (''TRUSTED'', 90)
      else if token = ''FALSE'' then (''PROPAGANDA'', 95)
      else if token = ''MISLEADING'' then (''UNVERIFIED'', 70)
      else (''UNVERIFIED'', 50))"

text \<open>\<^verbatim>\<open>log_source\<close>: an insert into \<^verbatim>\<open>source_logs\<close>; every exception is caught.\<close>

definition log_source :: "env \<Rightarrow> int \<Rightarrow> string \<Rightarrow> string \<Rightarrow> string \<Rightarrow> database \<Rightarrow> database" where
  "log_source env claim_id source_type source_identifier verdict db =
     (if db_fault env SourceInsert then db
      else (let new_id = max (source_seq db) (foldr max (map s_id (source_logs db)) 0) + 1 in
            db\<lparr>source_logs := source_logs db @
                  [\<lparr>s_id = new_id, s_claim_id = claim_id, s_source_type = source_type,
                    s_source_identifier = source_identifier, s_verdict = verdict\<rparr>],
               source_seq := new_id\<rparr>))"

subsection \<open>The audit delete endpoint (\<^verbatim>\<open>server.py\<close>, lines 257 to 287)\<close>

datatype http_error = HTTPException int string

record response =
  resp_status :: string
  resp_message :: string

text \<open>\<^verbatim>\<open>delete_logs\<close>; the count in the message is \<^verbatim>\<open>cursor.rowcount\<close>. The statement
  names \<^verbatim>\<open>verification_history\<close> only, and the connection never switches foreign keys on.\<close>

definition delete_logs ::
  "env \<Rightarrow> int list \<Rightarrow> string \<Rightarrow> database \<Rightarrow> (http_error + response) \<times> database" where
  "delete_logs env ids user_role db =
     (if user_role \<noteq> ''admin''
      then (Inl (HTTPException 403
                  ''Permission Denied: Only Admin users can delete audit logs.''), db)
      else if ids = [] then (Inr \<lparr>resp_status = ''success'', resp_message = ''No IDs provided.''\<rparr>, db)
      else if db_fault env HistoryDelete
      then (Inl (HTTPException 500 ''Failed to delete logs''), db)
      else (let rows_deleted =
                  length (filter (\<lambda>r. h_id r \<in> set ids) (verification_history db));
                db' = db\<lparr>verification_history :=
                          filter (\<lambda>r. h_id r \<notin> set ids) (verification_history db)\<rparr>
            in (Inr \<lparr>resp_status = ''success'',
                     resp_message = ''Successfully deleted '' @ str_int (int rows_deleted)
                               @ '' log(s).''\<rparr>, db')))"

subsection \<open>Example inputs\<close>

definition example_env :: env where
  "example_env =
     \<lparr>llm = (\<lambda>n. None), search_tool = (\<lambda>n. None), fetch_page = (\<lambda>u. None),
      netloc = (\<lambda>u. if u = ''https://www.example.com/story'' then Some ''www.example.com''
                     else None),
      random_choice = 0, now = ''2025-01-01 00:00:00'', db_fault = (\<lambda>_. False)\<rparr>"

text \<open>A store whose \<^verbatim>\<open>DELETE\<close> statement raises (a locked file, more ids than the statement
  takes variables, an id outside 64 bits).\<close>

definition failing_delete_env :: env where
  "failing_delete_env = example_env\<lparr>db_fault := (\<lambda>op. op = HistoryDelete)\<rparr>"

definition empty_db :: database where
  "empty_db =
     \<lparr>domain_reputation = Map.empty, verification_history = [], history_seq = 0,
      source_logs = [], source_seq = 0\<rparr>"

definition example_history_row :: "int \<Rightarrow> history_row" where
  "example_history_row i =
     \<lparr>h_id = i, h_user_id = ''anonymous'', h_claim_text = ''The moon landing was faked'',
      h_verdict = ''FALSE'', h_origin_city = ''London'', h_origin_country = ''UK'',
      h_user_role = ''standard'', h_timestamp = ''2025-01-01 00:00:00''\<rparr>"

definition example_source_row :: "int \<Rightarrow> int \<Rightarrow> source_row" where
  "example_source_row i claim =
     \<lparr>s_id = i, s_claim_id = claim, s_source_type = ''Internal DB'',
      s_source_identifier = ''satyamitra.db (MCP)'', s_verdict = ''FALSE''\<rparr>"

definition audit_db :: database where
  "audit_db =
     \<lparr>domain_reputation = Map.empty,
      verification_history = [example_history_row 1, example_history_row 2,
                              example_history_row 3],
      history_seq = 3,
      source_logs = [example_source_row 1 1, example_source_row 2 2],
      source_seq = 2\<rparr>"

section \<open>The state of a run\<close>

text \<open>
  The request enters the graph as the pair \<^verbatim>\<open>("user", text)\<close> (\<^verbatim>\<open>server.py\<close>, both
  endpoints); the \<^verbatim>\<open>messages\<close> channel is reduced with \<^verbatim>\<open>operator.add\<close>, which converts
  nothing, so the pair stays a pair and has no attribute \<^verbatim>\<open>content\<close>. What a node appends is a
  message object (the provider's response or an \<^verbatim>\<open>AIMessage\<close>), whose \<^verbatim>\<open>content\<close> is text.
\<close>

datatype message =
    UserTuple string string
  | AIMessage string

text \<open>\<^verbatim>\<open>m.content\<close>\<close>

fun content :: "message \<Rightarrow> error + string" where
  "content (UserTuple r t) = Inl AttributeError"
| "content (AIMessage c) = Inr c"

text \<open>\<^verbatim>\<open>m.content if hasattr(m, 'content') else m[1]\<close>\<close>

fun message_text :: "message \<Rightarrow> string" where
  "message_text (UserTuple r t) = t"
| "message_text (AIMessage c) = c"

text \<open>\<^verbatim>\<open>SatyaMitraState\<close>. The keys \<^verbatim>\<open>revision_count\<close>, \<^verbatim>\<open>is_verified\<close>, \<^verbatim>\<open>verdict\<close>,
  \<^verbatim>\<open>input_type\<close> and \<^verbatim>\<open>user_role\<close> are given by every caller; \<^verbatim>\<open>image_data\<close> and
  \<^verbatim>\<open>domain_status\<close> are read with \<^verbatim>\<open>state.get\<close>, so that an absent key and \<^verbatim>\<open>None\<close> are
  the same \<open>None\<close> here; \<^verbatim>\<open>claim_text\<close> is read with \<^verbatim>\<open>state["claim_text"]\<close>, which raises
  \<^verbatim>\<open>KeyError\<close> while no node has written it (\<open>None\<close>).\<close>

record SatyaMitraState =
  messages :: "message list"
  revision_count :: int
  is_verified :: bool
  verdict :: string
  input_type :: string
  image_data :: "string option"
  domain_status :: "string option"
  claim_text :: "string option"
  user_role :: string

text \<open>What a node works on: the state it is given, the SQLite file, and how many calls of the
  language model and of the search tool the run has made so far.\<close>

record world =
  st :: SatyaMitraState
  store :: database
  llm_calls :: nat
  search_calls :: nat

text \<open>A node returns, and the graph merges what it returns into the state (\<^verbatim>\<open>messages\<close> is
  appended to, every other key returned is overwritten), or it raises, and the state stays as
  it was while the writes already made to the SQLite file stay made. The world of \<open>Returned\<close>
  is the one after the merge.\<close>

datatype outcome =
    Returned world
  | Raised error world

text \<open>\<^verbatim>\<open>await llm.ainvoke(...)\<close> and \<^verbatim>\<open>search_tool.invoke(...)\<close>: the next answer of the
  provider, \<open>None\<close> when the call raises.\<close>

definition ainvoke :: "env \<Rightarrow> world \<Rightarrow> string option \<times> world" where
  "ainvoke env w = (llm env (llm_calls w), w\<lparr>llm_calls := Suc (llm_calls w)\<rparr>)"

definition invoke_search :: "env \<Rightarrow> world \<Rightarrow> string option \<times> world" where
  "invoke_search env w = (search_tool env (search_calls w), w\<lparr>search_calls := Suc (search_calls w)\<rparr>)"

text \<open>\<^verbatim>\<open>scrape_website\<close>: \<open>Some text\<close> is the dictionary with the page's text, \<open>None\<close> the one
  with the key \<^verbatim>\<open>error\<close>, which every exception of the fetch ends in.\<close>

definition scrape_website :: "env \<Rightarrow> string \<Rightarrow> string option" where
  "scrape_website env url =
     (let url' = (if startswith url ''http://'' \<or> startswith url ''https://'' then url
                  else ''https://'' @ url)
      in fetch_page env url')"

text \<open>\<^verbatim>\<open>state.get("domain_status") and "INTERNAL RECORD FOUND" in state["domain_status"]\<close>\<close>

definition internal_record_found :: "SatyaMitraState \<Rightarrow> bool" where
  "internal_record_found s =
     (case domain_status s of
        None \<Rightarrow> False
      | Some d \<Rightarrow> d \<noteq> [] \<and> contains ''INTERNAL RECORD FOUND'' d)"

section \<open>The nodes (\<^verbatim>\<open>agent.py\<close>, lines 155 to 412)\<close>

definition start_node :: "env \<Rightarrow> world \<Rightarrow> outcome" where
  "start_node env w =
     Returned (w\<lparr>st := (st w)\<lparr>messages := messages (st w) @ messages (st w)\<rparr>\<rparr>)"

text \<open>The dictionary \<^verbatim>\<open>pre_processor_node\<close> returns, merged into the state.\<close>

definition pre_processor_result :: "string \<Rightarrow> world \<Rightarrow> world" where
  "pre_processor_result claim w =
     w\<lparr>st := (st w)\<lparr>messages := messages (st w) @ messages (st w),
                     claim_text := Some claim,
                     domain_status := None,
                     image_data := image_data (st w),
                     user_role := user_role (st w)\<rparr>\<rparr>"

definition pre_processor_node :: "env \<Rightarrow> world \<Rightarrow> outcome" where
  "pre_processor_node env w =
     (case messages (st w) of
        [] \<Rightarrow> Raised IndexError w
      | _ # _ \<Rightarrow>
          (let input_text = message_text (last (messages (st w))) in
           if input_type (st w) = ''url'' then
             (case scrape_website env input_text of
                None \<Rightarrow> Returned (pre_processor_result input_text w)
              | Some page \<Rightarrow>
                  (case ainvoke env w of
                     (None, w') \<Rightarrow> Raised ProviderError w'
                   | (Some extraction, w') \<Rightarrow> Returned (pre_processor_result extraction w')))
           else if input_type (st w) = ''image'' then
             Returned (pre_processor_result ''Analyze image for authenticity and context.'' w)
           else Returned (pre_processor_result input_text w)))"

definition db_analyst_node :: "env \<Rightarrow> world \<Rightarrow> outcome" where
  "db_analyst_node env w =
     (case messages (st w) of
        [] \<Rightarrow> Raised IndexError w
      | m # _ \<Rightarrow>
          (let input_text = message_text m in
           if input_type (st w) = ''url'' then
             (case check_internal_db env input_text (store w) of
                None \<Rightarrow> Returned (w\<lparr>st := (st w)\<lparr>domain_status := None\<rparr>\<rparr>)
              | Some db_record \<Rightarrow>
                  if db_record \<noteq> []
                  then Returned (w\<lparr>st := (st w)\<lparr>domain_status := Some db_record\<rparr>\<rparr>)
                  else Returned (w\<lparr>st := (st w)\<lparr>domain_status := None\<rparr>\<rparr>))
           else Returned (w\<lparr>st := (st w)\<lparr>domain_status := None\<rparr>\<rparr>)))"

text \<open>The last step of \<^verbatim>\<open>researcher_node\<close>: the summary for the skeptic.\<close>

definition researcher_summary :: "env \<Rightarrow> world \<Rightarrow> outcome" where
  "researcher_summary env w =
     (case ainvoke env w of
        (None, w') \<Rightarrow> Raised ProviderError w'
      | (Some response, w') \<Rightarrow>
          Returned (w'\<lparr>st := (st w')\<lparr>messages := messages (st w') @ [AIMessage response]\<rparr>\<rparr>))"

definition researcher_node :: "env \<Rightarrow> world \<Rightarrow> outcome" where
  "researcher_node env w =
     (case claim_text (st w) of
        None \<Rightarrow> Raised KeyError w
      | Some claim \<Rightarrow>
          if input_type (st w) = ''image'' \<and> image_data (st w) \<noteq> None
             \<and> image_data (st w) \<noteq> Some []
          then
            (case ainvoke env w of
               (None, w') \<Rightarrow> Raised ProviderError w'
             | (Some image_description, w') \<Rightarrow>
                 (case invoke_search env w' of
                    (None, w'') \<Rightarrow> Raised ProviderError w''
                  | (Some search_results, w'') \<Rightarrow> researcher_summary env w''))
          else if input_type (st w) = ''url'' then
            (case invoke_search env w of
               (None, w') \<Rightarrow> Raised ProviderError w'
             | (Some search_results, w') \<Rightarrow> researcher_summary env w')
          else
            (case invoke_search env w of
               (None, w') \<Rightarrow> Raised ProviderError w'
             | (Some search_results, w') \<Rightarrow> researcher_summary env w'))"

definition skeptic_node :: "env \<Rightarrow> world \<Rightarrow> outcome" where
  "skeptic_node env w =
     (case messages (st w) of
        [] \<Rightarrow> Raised IndexError w
      | _ # _ \<Rightarrow>
          (case content (last (messages (st w))) of
             Inl e \<Rightarrow> Raised e w
           | Inr last_research \<Rightarrow>
               (let retries = revision_count (st w) in
                if internal_record_found (st w) then
                  (case domain_status (st w) of
                     None \<Rightarrow> Raised KeyError w
                   | Some d \<Rightarrow>
                       Returned (w\<lparr>st := (st w)\<lparr>
                         messages := messages (st w)
                           @ [AIMessage (''Internal Match ('' @ d @ ''). Auto-Approved.'')],
                         is_verified := True,
                         revision_count := retries\<rparr>\<rparr>))
                else
                  (case ainvoke env w of
                     (None, w') \<Rightarrow> Raised ProviderError w'
                   | (Some decision, w') \<Rightarrow>
                       (let decision_text = strip decision in
                        if startswith decision_text ''REJECTED'' \<and> retries < 1 then
                          Returned (w'\<lparr>st := (st w')\<lparr>
                            messages := messages (st w')
                              @ [AIMessage (''Critique: '' @ decision_text)],
                            is_verified := False,
                            revision_count := retries + 1\<rparr>\<rparr>)
                        else
                          Returned (w'\<lparr>st := (st w')\<lparr>
                            messages := messages (st w')
                              @ [AIMessage ''Evidence accepted. Proceeding to final report.''],
                            is_verified := True,
                            revision_count := retries\<rparr>\<rparr>))))))"

subsection \<open>The reporter\<close>

definition MOCK_ORIGINS :: "(string \<times> string) list" where
  "MOCK_ORIGINS = [(''Mumbai'', ''India''), (''New York'', ''USA''), (''London'', ''UK''),
                   (''Bengaluru'', ''India'')]"

text \<open>Step 3 of \<^verbatim>\<open>reporter_node\<close>, the write-policy gate (lines 353 to 362).\<close>

definition reputation_gate ::
  "env \<Rightarrow> SatyaMitraState \<Rightarrow> string \<Rightarrow> string \<Rightarrow> string \<Rightarrow> database \<Rightarrow> database" where
  "reputation_gate env s original_input verdict_text original_claim d =
     (if input_type s = ''url'' \<and> user_role s = ''admin'' then
        (if original_input \<noteq> []
            \<and> (startswith original_input ''http://'' \<or> startswith original_input ''https://'')
         then update_internal_db env original_input verdict_text original_claim d
         else d)
      else d)"

text \<open>The three conditions of the gate: the type \<^verbatim>\<open>url\<close>, the role \<^verbatim>\<open>admin\<close>, and an
  input that starts with a scheme.\<close>

definition gate_open :: "SatyaMitraState \<Rightarrow> string \<Rightarrow> bool" where
  "gate_open s original_input =
     (input_type s = ''url'' \<and> user_role s = ''admin'' \<and>
      (startswith original_input ''http://'' \<or> startswith original_input ''https://''))"

text \<open>What \<^verbatim>\<open>reporter_node\<close> needs to get as far as its report: a message before the last
  that has a \<^verbatim>\<open>content\<close>, and a claim.\<close>

definition reporter_ready :: "SatyaMitraState \<Rightarrow> bool" where
  "reporter_ready s =
     (2 \<le> length (messages s) \<and>
      (case content (messages s ! (length (messages s) - 2)) of
         Inl e \<Rightarrow> False
       | Inr research \<Rightarrow> True) \<and>
      claim_text s \<noteq> None)"

text \<open>The insert into \<^verbatim>\<open>verification_history\<close> (lines 374 to 381); it stands in no
  \<^verbatim>\<open>try\<close>. The key \<^verbatim>\<open>user_id\<close> is no key of the state, so the row gets \<^verbatim>\<open>anonymous\<close>.\<close>

definition next_history_id :: "database \<Rightarrow> int" where
  "next_history_id d = max (history_seq d) (foldr max (map h_id (verification_history d)) 0) + 1"

definition new_history_row :: "env \<Rightarrow> int \<Rightarrow> string \<Rightarrow> string \<Rightarrow> string \<Rightarrow> history_row" where
  "new_history_row env claim_id claim_to_insert verdict_to_insert role =
     (let (origin_city, origin_country) = MOCK_ORIGINS ! (random_choice env mod 4) in
      \<lparr>h_id = claim_id, h_user_id = ''anonymous'',
       h_claim_text = claim_to_insert, h_verdict = verdict_to_insert,
       h_origin_city = origin_city, h_origin_country = origin_country,
       h_user_role = role, h_timestamp = now env\<rparr>)"

definition insert_history ::
  "env \<Rightarrow> string \<Rightarrow> string \<Rightarrow> string \<Rightarrow> database \<Rightarrow> error + (int \<times> database)" where
  "insert_history env claim_to_insert verdict_to_insert role d =
     (if db_fault env HistoryInsert then Inl SqliteError
      else
        (let claim_id = next_history_id d in
         Inr (claim_id,
              d\<lparr>verification_history := verification_history d @
                    [new_history_row env claim_id claim_to_insert verdict_to_insert role],
                 history_seq := claim_id\<rparr>)))"

text \<open>The source rows (lines 384 to 396) and the check after them (lines 398 to 404). The
  \<^verbatim>\<open>urlparse\<close> of line 393 and the \<^verbatim>\<open>SELECT\<close> stand in no \<^verbatim>\<open>try\<close>.\<close>

definition log_sources ::
  "env \<Rightarrow> SatyaMitraState \<Rightarrow> string \<Rightarrow> int \<Rightarrow> string \<Rightarrow> database \<Rightarrow> error option \<times> database" where
  "log_sources env s original_input claim_id verdict_to_insert d =
     (if claim_id = 0 then (None, d)
      else
        (let d1 = (if input_type s = ''url'' \<or> input_type s = ''text''
                   then log_source env claim_id ''External Web'' ''DuckDuckGo/Search Engine''
                          verdict_to_insert d
                   else d)
         in
         case (if input_type s = ''url'' then
                 (case netloc env original_input of
                    None \<Rightarrow> Inl ValueError
                  | Some nl \<Rightarrow>
                      (let source_domain =
                             (if replace ''www.'' '''' nl = [] then ''N/A''
                              else replace ''www.'' '''' nl)
                       in Inr (log_source env claim_id ''Website Scraping'' source_domain
                                 verdict_to_insert d1)))
               else Inr d1) of
           Inl e \<Rightarrow> (Some e, d1)
         | Inr d2 \<Rightarrow>
             (let d3 = (if input_type s = ''image''
                        then log_source env claim_id ''AI Vision Model''
                               ''Gemini 2.5 Flash Vision'' verdict_to_insert d2
                        else d2)
              in (None, log_source env claim_id ''Internal DB'' ''satyamitra.db (MCP)''
                          verdict_to_insert d3))))"

definition persist_history ::
  "env \<Rightarrow> SatyaMitraState \<Rightarrow> string \<Rightarrow> string \<Rightarrow> string \<Rightarrow> database \<Rightarrow> error option \<times> database" where
  "persist_history env s original_input original_claim verdict_text d =
     (case insert_history env original_claim verdict_text (user_role s) d of
        Inl e \<Rightarrow> (Some e, d)
      | Inr (claim_id, d1) \<Rightarrow>
          (case log_sources env s original_input claim_id verdict_text d1 of
             (Some e, d2) \<Rightarrow> (Some e, d2)
           | (None, d2) \<Rightarrow>
               if db_fault env HistorySelect then (Some SqliteError, d2) else (None, d2)))"

definition reporter_node :: "env \<Rightarrow> world \<Rightarrow> outcome" where
  "reporter_node env w =
     (let ms = messages (st w) in
      if length ms < 2 then Raised IndexError w
      else
        (case content (ms ! (length ms - 2)) of
           Inl e \<Rightarrow> Raised e w
         | Inr research \<Rightarrow>
             (case claim_text (st w) of
                None \<Rightarrow> Raised KeyError w
              | Some original_claim \<Rightarrow>
                  (let original_input = message_text (hd ms) in
                   case ainvoke env w of
                     (None, w') \<Rightarrow> Raised ProviderError w'
                   | (Some final_report_content, w') \<Rightarrow>
                       (case parse_verdict final_report_content of
                          Inl e \<Rightarrow> Raised e w'
                        | Inr verdict_text \<Rightarrow>
                            (let d1 = reputation_gate env (st w) original_input verdict_text
                                        original_claim (store w')
                             in
                             case (if final_report_content \<noteq> []
                                   then persist_history env (st w) original_input
                                          original_claim verdict_text d1
                                   else (None, d1)) of
                               (Some e, d2) \<Rightarrow> Raised e (w'\<lparr>store := d2\<rparr>)
                             | (None, d2) \<Rightarrow>
                                 Returned (w'\<lparr>store := d2,
                                              st := (st w')\<lparr>messages := messages (st w')
                                                 @ [AIMessage final_report_content]\<rparr>\<rparr>)))))))"

section \<open>The graph (\<^verbatim>\<open>agent.py\<close>, lines 414 to 460)\<close>

datatype node = Start | PreProcessor | DbAnalyst | Researcher | Skeptic | Reporter

definition router_to_db :: "SatyaMitraState \<Rightarrow> node" where
  "router_to_db s = (if input_type s = ''url'' then DbAnalyst else Researcher)"

definition router_after_db :: "SatyaMitraState \<Rightarrow> node" where
  "router_after_db s = (if internal_record_found s then Reporter else Researcher)"

text \<open>The edges; \<open>None\<close> is \<^verbatim>\<open>END\<close>.\<close>

fun next_node :: "node \<Rightarrow> SatyaMitraState \<Rightarrow> node option" where
  "next_node Start s = Some PreProcessor"
| "next_node PreProcessor s = Some (router_to_db s)"
| "next_node DbAnalyst s = Some (router_after_db s)"
| "next_node Researcher s = Some Skeptic"
| "next_node Skeptic s = Some (if is_verified s then Reporter else Researcher)"
| "next_node Reporter s = None"

fun exec_node :: "env \<Rightarrow> node \<Rightarrow> world \<Rightarrow> outcome" where
  "exec_node env Start w = start_node env w"
| "exec_node env PreProcessor w = pre_processor_node env w"
| "exec_node env DbAnalyst w = db_analyst_node env w"
| "exec_node env Researcher w = researcher_node env w"
| "exec_node env Skeptic w = skeptic_node env w"
| "exec_node env Reporter w = reporter_node env w"

text \<open>A run: the nodes executed with the world each one left, and how the run ended. The
  first argument is the number of steps the graph may still take; the compiled graph is
  invoked with no \<^verbatim>\<open>recursion_limit\<close>, so with the library's 25, and a run that has not
  ended by then raises \<^verbatim>\<open>GraphRecursionError\<close>.\<close>

datatype run_result =
    Finished world
  | Failed error world

fun run_graph :: "nat \<Rightarrow> env \<Rightarrow> node \<Rightarrow> world \<Rightarrow> (node \<times> world) list \<times> run_result" where
  "run_graph 0 env n w = ([], Failed GraphRecursionError w)"
| "run_graph (Suc k) env n w =
     (case exec_node env n w of
        Raised e w' \<Rightarrow> ([(n, w')], Failed e w')
      | Returned w' \<Rightarrow>
          (case next_node n (st w') of
             None \<Rightarrow> ([(n, w')], Finished w')
           | Some n' \<Rightarrow>
               (case run_graph k env n' w' of
                  (tr, r) \<Rightarrow> ((n, w') # tr, r))))"

definition recursion_limit :: nat where
  "recursion_limit = 25"

text \<open>\<^verbatim>\<open>initial_state\<close> of \<^verbatim>\<open>verify_news\<close> (\<^verbatim>\<open>server.py\<close>, lines 79 to 87); the WhatsApp
  hook gives the same with the type \<^verbatim>\<open>text\<close>, no image and the role \<^verbatim>\<open>standard\<close>.\<close>

definition initial_state :: "string \<Rightarrow> string \<Rightarrow> string option \<Rightarrow> string \<Rightarrow> SatyaMitraState" where
  "initial_state request_text it img role =
     \<lparr>messages = [UserTuple ''user'' request_text], revision_count = 0, is_verified = False,
      verdict = ''PENDING'', input_type = it, image_data = img, domain_status = None,
      claim_text = None, user_role = role\<rparr>"

text \<open>The world at the start of a run.\<close>

definition initial_world :: "SatyaMitraState \<Rightarrow> database \<Rightarrow> world" where
  "initial_world s d = \<lparr>st = s, store = d, llm_calls = 0, search_calls = 0\<rparr>"

definition satyamitra_brain ::
  "env \<Rightarrow> SatyaMitraState \<Rightarrow> database \<Rightarrow> (node \<times> world) list \<times> run_result" where
  "satyamitra_brain env s d = run_graph recursion_limit env Start (initial_world s d)"

text \<open>The world an outcome leaves, and the world a run ends in.\<close>

fun outcome_world :: "outcome \<Rightarrow> world" where
  "outcome_world (Returned w) = w"
| "outcome_world (Raised e w) = w"

fun returned :: "outcome \<Rightarrow> bool" where
  "returned (Returned w) = True"
| "returned (Raised e w) = False"

fun finished :: "run_result \<Rightarrow> bool" where
  "finished (Finished w) = True"
| "finished (Failed e w) = False"

fun result_world :: "run_result \<Rightarrow> world" where
  "result_world (Finished w) = w"
| "result_world (Failed e w) = w"

text \<open>The exception a run ended with, and how often the researcher ran.\<close>

fun result_error :: "run_result \<Rightarrow> error option" where
  "result_error (Finished w) = None"
| "result_error (Failed e w) = Some e"

definition researcher_runs :: "(node \<times> world) list \<Rightarrow> nat" where
  "researcher_runs tr = length (filter (\<lambda>p. fst p = Researcher) tr)"

text \<open>\<^verbatim>\<open>revision_count\<close> is 0 or 1 in every state of a trace.\<close>

definition revision_bounded :: "(node \<times> world) list \<Rightarrow> bool" where
  "revision_bounded tr =
     list_all (\<lambda>p. 0 \<le> revision_count (st (snd p)) \<and> revision_count (st (snd p)) \<le> 1) tr"

text \<open>The world in which the claim extractor runs: the one the entry node leaves for a
  request.\<close>

definition requested ::
  "env \<Rightarrow> string \<Rightarrow> string \<Rightarrow> string option \<Rightarrow> string \<Rightarrow> database \<Rightarrow> world" where
  "requested env input it img role d =
     outcome_world (start_node env (initial_world (initial_state input it img role) d))"

subsection \<open>Example runs\<close>

text \<open>A page that can be fetched, and a provider that answers with one sentence.\<close>

definition extracting_env :: env where
  "extracting_env =
     example_env\<lparr>llm := (\<lambda>n. Some ''The bridge closes on Monday.''),
                 fetch_page := (\<lambda>u. Some ''Officials said on Friday that the bridge closes on Monday.'')\<rparr>"

text \<open>A provider that answers every call: the research summary first, then the skeptic's
  \<^verbatim>\<open>APPROVED\<close>, then an empty report. No page can be fetched.\<close>

definition empty_report_env :: env where
  "empty_report_env =
     example_env\<lparr>llm := (\<lambda>n. if n = 0 then Some ''Two sources contradict the claim.''
                            else if n = 1 then Some ''APPROVED'' else Some []),
                 search_tool := (\<lambda>n. Some ''search results'')\<rparr>"

text \<open>A provider whose skeptic approves and whose report says \<^verbatim>\<open>FALSE\<close>.\<close>

definition approving_env :: env where
  "approving_env =
     example_env\<lparr>llm := (\<lambda>n. if n = 0 then Some ''Two sources contradict the claim.''
                            else if n = 1 then Some ''APPROVED''
                            else Some ''**Verdict:** FALSE ---DETAILED_REPORT_START--- details''),
                 search_tool := (\<lambda>n. Some ''search results'')\<rparr>"

text \<open>The world the last node of a run was given: the one the node before it left.\<close>

definition before_last :: "(node \<times> world) list \<times> run_result \<Rightarrow> world" where
  "before_last run = snd (last (butlast (fst run)))"

definition url_run_standard :: "(node \<times> world) list \<times> run_result" where
  "url_run_standard =
     satyamitra_brain approving_env
       (initial_state ''https://www.example.com/story'' ''url'' None ''standard'') empty_db"

definition url_run_admin :: "(node \<times> world) list \<times> run_result" where
  "url_run_admin =
     satyamitra_brain approving_env
       (initial_state ''https://www.example.com/story'' ''url'' None ''admin'') empty_db"

definition text_run_standard :: "(node \<times> world) list \<times> run_result" where
  "text_run_standard =
     satyamitra_brain approving_env
       (initial_state ''The moon landing was faked'' ''text'' None ''standard'') empty_db"

text \<open>A provider whose skeptic rejects whenever it is asked, and whose reports say
  \<^verbatim>\<open>FALSE\<close>: in a run on a text the answers 0 and 2 are summaries of the research, the
  answers 1 and 3 judgments of the skeptic.\<close>

definition rejecting_env :: env where
  "rejecting_env =
     example_env\<lparr>llm := (\<lambda>n. if n = 1 \<or> n = 3 then Some ''REJECTED: the sources are vague''
                            else if n = 0 \<or> n = 2 then Some ''Two sources contradict the claim.''
                            else Some ''**Verdict:** FALSE ---DETAILED_REPORT_START--- details''),
                 search_tool := (\<lambda>n. Some ''search results'')\<rparr>"

text \<open>A store that knows the domain of the example URL.\<close>

definition known_domain_db :: database where
  "known_domain_db = empty_db\<lparr>domain_reputation := [''example.com'' \<mapsto> (''TRUSTED'', 90)]\<rparr>"

text \<open>The worlds the skeptic is given in the run of \<open>rejecting_env\<close> on a text: after the
  first research, and after the second.\<close>

definition researched :: world where
  "researched =
     outcome_world (researcher_node rejecting_env
       (outcome_world (pre_processor_node rejecting_env
          (requested rejecting_env ''The moon landing was faked'' ''text'' None ''standard''
             empty_db))))"

definition researched_again :: world where
  "researched_again =
     outcome_world (researcher_node rejecting_env
       (outcome_world (skeptic_node rejecting_env researched)))"

section \<open>Lemmas on the string functions\<close>

lemma split_sep_not_Nil: "split_sep sep s \<noteq> []"
  by (induction s) (auto split: list.splits)

lemma split_sep_hd: "hd (split_sep sep s) = before_first sep s"
  using split_sep_not_Nil [of sep] by (induction s) (auto split: list.splits)

lemma split_sep_tl:
  "sep \<noteq> [] \<Longrightarrow> contains sep s \<Longrightarrow> tl (split_sep sep s) = split_sep sep (after_first sep s)"
proof (induction s)
  case Nil
  then show ?case by simp
next
  case (Cons c cs)
  show ?case
  proof (cases "startswith (c # cs) sep")
    case True
    with Cons.prems show ?thesis by (cases sep) simp_all
  next
    case False
    with Cons show ?thesis by (auto split: list.splits)
  qed
qed

lemma split_ws_acc_cur:
  "cur \<noteq> [] \<Longrightarrow> \<exists>ws. split_ws_acc cur s = (rev cur @ takeWhile (\<lambda>c. \<not> isspace c) s) # ws"
proof (induction s arbitrary: cur)
  case Nil
  then show ?case by simp
next
  case (Cons c cs)
  show ?case
  proof (cases "isspace c")
    case True
    with Cons.prems show ?thesis by simp
  next
    case False
    from Cons.IH [of "c # cur"] obtain ws where
      "split_ws_acc (c # cur) cs = (rev (c # cur) @ takeWhile (\<lambda>c. \<not> isspace c) cs) # ws"
      by auto
    with False show ?thesis by simp
  qed
qed

lemma split_ws_first_word:
  "(case split_ws s of [] \<Rightarrow> a | w # ws \<Rightarrow> f w) = (case first_word s of None \<Rightarrow> a | Some w \<Rightarrow> f w)"
proof (induction s)
  case Nil
  then show ?case by (simp add: split_ws_def first_word_def)
next
  case (Cons c cs)
  show ?case
  proof (cases "isspace c")
    case True
    with Cons show ?thesis by (simp add: split_ws_def first_word_def)
  next
    case False
    obtain ws where "split_ws_acc [c] cs = (rev [c] @ takeWhile (\<lambda>c. \<not> isspace c) cs) # ws"
      using split_ws_acc_cur [of "[c]" cs] by auto
    with False show ?thesis by (simp add: split_ws_def first_word_def)
  qed
qed


lemma first_word_append_space:
  assumes "\<forall>c\<in>set t. isspace c"
  shows "first_word (y @ t) = first_word y"
proof (cases "\<forall>c\<in>set y. isspace c")
  case True
  with assms have "\<forall>c\<in>set (y @ t). isspace c" by auto
  then have "dropWhile isspace (y @ t) = []" by (simp only: dropWhile_eq_Nil_conv)
  moreover from True have "dropWhile isspace y = []" by simp
  ultimately show ?thesis unfolding first_word_def by (simp only: list.case)
next
  case False
  then have d: "dropWhile isspace (y @ t) = dropWhile isspace y @ t"
    by (auto simp: dropWhile_append1)
  from False have ne: "dropWhile isspace y \<noteq> []" by auto
  have tw: "takeWhile (\<lambda>c. \<not> isspace c) t = []" using assms by (cases t) auto
  have "takeWhile (\<lambda>c. \<not> isspace c) (w @ t) = takeWhile (\<lambda>c. \<not> isspace c) w" for w
    using tw by (induction w) auto
  with d ne show ?thesis by (auto simp: first_word_def split: list.splits)
qed

lemma first_word_dropWhile: "first_word (dropWhile isspace s) = first_word s"
  by (simp add: first_word_def)

lemma rstrip_decomp:
  "\<exists>t. rev (dropWhile isspace (rev y)) @ t = y \<and> (\<forall>c\<in>set t. isspace c)"
proof (intro exI conjI)
  have "rev (takeWhile isspace (rev y) @ dropWhile isspace (rev y)) = rev (rev y)"
    by (simp only: takeWhile_dropWhile_id)
  then show "rev (dropWhile isspace (rev y)) @ rev (takeWhile isspace (rev y)) = y"
    by (simp only: rev_append rev_rev_ident)
  show "\<forall>c\<in>set (rev (takeWhile isspace (rev y))). isspace c"
    by (auto dest: set_takeWhileD)
qed

lemma strip_rstrip:
  "\<exists>t. strip s @ t = dropWhile isspace s \<and> (\<forall>c\<in>set t. isspace c)"
  unfolding strip_def by (rule rstrip_decomp)

lemma first_word_strip: "first_word (strip s) = first_word s"
proof -
  obtain t where t: "strip s @ t = dropWhile isspace s" "\<forall>c\<in>set t. isspace c"
    using strip_rstrip [of s] by auto
  have "first_word (strip s) = first_word (strip s @ t)"
    using t(2) by (simp add: first_word_append_space)
  also have "\<dots> = first_word (dropWhile isspace s)" by (simp only: t(1))
  also have "\<dots> = first_word s" by (rule first_word_dropWhile)
  finally show ?thesis .
qed

lemma startswith_length: "startswith s p \<Longrightarrow> length p \<le> length s"
proof -
  assume "startswith s p"
  then have a: "take (length p) s = p" by (simp add: startswith_def)
  from arg_cong [OF a, of length] show ?thesis by (simp add: min_def split: if_splits)
qed

lemma startswith_space_hd:
  "M \<noteq> [] \<Longrightarrow> \<not> isspace (hd M) \<Longrightarrow> isspace c \<Longrightarrow> \<not> startswith (c # cs) M"
  by (cases M) (auto simp: startswith_def)

lemma startswith_append_space:
  assumes "M \<noteq> []" "\<not> isspace (last M)" "\<forall>c\<in>set t. isspace c"
  shows "startswith (x @ t) M = startswith x M"
proof (cases "length M \<le> length x")
  case True
  then show ?thesis by (simp add: startswith_def)
next
  case False
  then have lt: "length x < length M" by simp
  define s where "s = take (length M - length x) t"
  have "take (length M) (x @ t) \<noteq> M"
  proof
    assume eq: "take (length M) (x @ t) = M"
    have M_eq: "M = x @ s" using eq lt unfolding s_def by simp
    have ne: "s \<noteq> []" using M_eq lt by auto
    have "last M = last s" using M_eq ne by simp
    moreover have "last s \<in> set s" using ne by simp
    moreover have "set s \<subseteq> set t" unfolding s_def by (rule set_take_subset)
    ultimately have "isspace (last M)" using assms(3) by auto
    then show False using assms(2) by simp
  qed
  moreover have "take (length M) x \<noteq> M"
  proof
    assume a: "take (length M) x = M"
    from arg_cong [OF a, of length] lt show False by simp
  qed
  ultimately show ?thesis by (simp add: startswith_def)
qed

lemma contains_space:
  "M \<noteq> [] \<Longrightarrow> \<not> isspace (hd M) \<Longrightarrow> \<forall>c\<in>set t. isspace c \<Longrightarrow> \<not> contains M t"
  by (induction t) (auto simp: startswith_space_hd)

lemma contains_lead_space:
  "M \<noteq> [] \<Longrightarrow> \<not> isspace (hd M) \<Longrightarrow> \<forall>c\<in>set l. isspace c \<Longrightarrow>
   contains M (l @ y) = contains M y"
  by (induction l) (auto simp: startswith_space_hd)

lemma after_first_lead_space:
  "M \<noteq> [] \<Longrightarrow> \<not> isspace (hd M) \<Longrightarrow> \<forall>c\<in>set l. isspace c \<Longrightarrow>
   after_first M (l @ y) = after_first M y"
  by (induction l) (auto simp: startswith_space_hd)

lemma contains_append_space:
  assumes "M \<noteq> []" "\<not> isspace (hd M)" "\<not> isspace (last M)" "\<forall>c\<in>set t. isspace c"
  shows "contains M (x @ t) = contains M x"
proof (induction x)
  case Nil
  then show ?case using assms contains_space by simp
next
  case (Cons c cs)
  have "startswith ((c # cs) @ t) M = startswith (c # cs) M"
    using assms startswith_append_space [of M t "c # cs"] by simp
  with Cons show ?case by simp
qed

lemma after_first_append_space:
  assumes "M \<noteq> []" "\<not> isspace (last M)" "\<forall>c\<in>set t. isspace c"
  shows "contains M x \<Longrightarrow> after_first M (x @ t) = after_first M x @ t"
proof (induction x)
  case Nil
  then show ?case using assms by simp
next
  case (Cons c cs)
  have sw: "startswith ((c # cs) @ t) M = startswith (c # cs) M"
    using assms startswith_append_space [of M t "c # cs"] by simp
  show ?case
  proof (cases "startswith (c # cs) M")
    case True
    then have len: "length M \<le> length (c # cs)"
      by (rule startswith_length)
    have dr: "drop (length M) ((c # cs) @ t) = drop (length M) (c # cs) @ t"
      using len unfolding drop_append by simp
    have "after_first M ((c # cs) @ t) = drop (length M) ((c # cs) @ t)"
      using True sw assms(1) by simp
    also note dr
    also have "drop (length M) (c # cs) = after_first M (c # cs)"
      using True assms(1) by simp
    finally show ?thesis .
  next
    case False
    with Cons sw show ?thesis by simp
  qed
qed

lemma before_first_no_match: "\<not> contains M z \<Longrightarrow> before_first M z = z"
  by (induction z) auto

lemma before_first_append_space:
  assumes "M \<noteq> []" "\<not> isspace (hd M)" "\<not> isspace (last M)" "\<forall>c\<in>set t. isspace c"
  shows "before_first M (z @ t) = (if contains M z then before_first M z else z @ t)"
proof (induction z)
  case Nil
  have "\<not> contains M t" using assms contains_space by simp
  then show ?case using assms by (simp add: before_first_no_match)
next
  case (Cons c cs)
  have sw: "startswith ((c # cs) @ t) M = startswith (c # cs) M"
    using assms startswith_append_space [of M t "c # cs"] by simp
  with Cons assms show ?case by auto
qed

lemma first_word_segment_append_space:
  assumes "M \<noteq> []" "\<not> isspace (hd M)" "\<not> isspace (last M)" "\<forall>c\<in>set t. isspace c"
    and "contains M x"
  shows "first_word (segment M (x @ t)) = first_word (segment M x)"
proof -
  have "segment M (x @ t) = before_first M (after_first M x @ t)"
    using assms by (simp add: segment_def after_first_append_space)
  also have "\<dots> = (if contains M (after_first M x) then before_first M (after_first M x)
                     else after_first M x @ t)"
    using assms by (simp add: before_first_append_space)
  finally show ?thesis
    using assms by (simp add: segment_def before_first_no_match first_word_append_space)
qed

lemma strip_decomp:
  "\<exists>l t. l @ strip s @ t = s \<and> (\<forall>c\<in>set l. isspace c) \<and> (\<forall>c\<in>set t. isspace c)"
proof -
  obtain t where t: "strip s @ t = dropWhile isspace s" "\<forall>c\<in>set t. isspace c"
    using strip_rstrip [of s] by auto
  have a: "takeWhile isspace s @ strip s @ t = s"
    by (simp only: t(1) takeWhile_dropWhile_id)
  have b: "\<forall>c\<in>set (takeWhile isspace s). isspace c"
    by (auto dest: set_takeWhileD)
  show ?thesis
    by (intro exI conjI) (rule a, rule b, rule t(2))
qed

lemma contains_padded:
  assumes "M \<noteq> []" "\<not> isspace (hd M)" "\<not> isspace (last M)"
    and "\<forall>c\<in>set l. isspace c" "\<forall>c\<in>set t. isspace c"
  shows "contains M (l @ core @ t) = contains M core"
  using assms by (simp add: contains_lead_space contains_append_space)

lemma first_word_segment_padded:
  assumes "M \<noteq> []" "\<not> isspace (hd M)" "\<not> isspace (last M)"
    and "\<forall>c\<in>set l. isspace c" "\<forall>c\<in>set t. isspace c" "contains M core"
  shows "first_word (segment M (l @ core @ t)) = first_word (segment M core)"
proof -
  have "segment M (l @ core @ t) = segment M (core @ t)"
    using assms by (simp add: segment_def after_first_lead_space)
  then show ?thesis
    using assms by (simp add: first_word_segment_append_space)
qed

lemma contains_strip:
  assumes "M \<noteq> []" "\<not> isspace (hd M)" "\<not> isspace (last M)"
  shows "contains M (strip s) = contains M s"
proof -
  obtain l t where d: "l @ strip s @ t = s" "\<forall>c\<in>set l. isspace c" "\<forall>c\<in>set t. isspace c"
    using strip_decomp [of s] by auto
  have "contains M (l @ strip s @ t) = contains M (strip s)"
    using assms d(2,3) by (rule contains_padded)
  then show ?thesis by (simp only: d(1))
qed

lemma first_word_segment_strip:
  assumes "M \<noteq> []" "\<not> isspace (hd M)" "\<not> isspace (last M)" "contains M s"
  shows "first_word (segment M (strip s)) = first_word (segment M s)"
proof -
  obtain l t where d: "l @ strip s @ t = s" "\<forall>c\<in>set l. isspace c" "\<forall>c\<in>set t. isspace c"
    using strip_decomp [of s] by auto
  have c: "contains M (strip s)" using assms by (simp add: contains_strip)
  have "first_word (segment M (l @ strip s @ t)) = first_word (segment M (strip s))"
    using assms(1,2,3) d(2,3) c by (rule first_word_segment_padded)
  then show ?thesis by (simp only: d(1))
qed

section \<open>The verdict parser\<close>

lemma MARKER_shape: "MARKER \<noteq> []" "\<not> isspace (hd MARKER)" "\<not> isspace (last MARKER)"
  by (simp_all add: MARKER_def isspace_def)

lemma split_sep_Cons: "split_sep sep s = before_first sep s # tl (split_sep sep s)"
  using split_sep_not_Nil [of sep s] split_sep_hd [of sep s] by (cases "split_sep sep s") auto

lemma parse_verdict_marked: "parse_verdict r = Inr (marked_parse_verdict r)"
proof -
  define part0 where "part0 = before_first DELIMITER r"
  have p0: "split_sep DELIMITER r = part0 # tl (split_sep DELIMITER r)"
    unfolding part0_def by (rule split_sep_Cons)
  show ?thesis
  proof (cases "contains MARKER part0")
    case False
    then have "\<not> contains MARKER (strip part0)" using MARKER_shape by (simp add: contains_strip)
    with False show ?thesis
      by (subst parse_verdict_def, subst p0)
         (simp add: marked_parse_verdict_def part0_def [symmetric] Let_def)
  next
    case True
    then have c: "contains MARKER (strip part0)" using MARKER_shape by (simp add: contains_strip)
    have "drop (Suc 0) (split_sep MARKER (strip part0)) = tl (split_sep MARKER (strip part0))"
      by (simp add: drop_Suc)
    also have "\<dots> = split_sep MARKER (after_first MARKER (strip part0))"
      using c MARKER_shape by (simp add: split_sep_tl)
    also have "\<dots> = segment MARKER (strip part0)
                 # tl (split_sep MARKER (after_first MARKER (strip part0)))"
      unfolding segment_def by (rule split_sep_Cons)
    finally have d: "drop (Suc 0) (split_sep MARKER (strip part0)) = segment MARKER (strip part0)
                 # tl (split_sep MARKER (after_first MARKER (strip part0)))" .
    have fw: "first_word (strip (segment MARKER (strip part0))) = first_word (segment MARKER part0)"
      using True MARKER_shape by (simp add: first_word_strip first_word_segment_strip)
    have "parse_verdict r =
            (case split_ws (strip (segment MARKER (strip part0))) of
               [] \<Rightarrow> Inr ''UNVERIFIED''
             | word0 # _ \<Rightarrow>
                 (let verdict_word = upper (replace ''**'' '''' word0) in
                  if verdict_word \<in> set VALID_VERDICTS then Inr verdict_word
                  else Inr ''UNVERIFIED''))"
      using c by (subst parse_verdict_def, subst p0) (simp add: d Let_def)
    also have "\<dots> = (case first_word (strip (segment MARKER (strip part0))) of
               None \<Rightarrow> Inr ''UNVERIFIED''
             | Some word0 \<Rightarrow>
                 (let verdict_word = upper (replace ''**'' '''' word0) in
                  if verdict_word \<in> set VALID_VERDICTS then Inr verdict_word
                  else Inr ''UNVERIFIED''))"
      by (rule split_ws_first_word)
    also have "\<dots> = Inr (verdict_of_word (first_word (segment MARKER part0)))"
      by (simp add: fw verdict_of_word_def Let_def split: option.splits)
    finally show ?thesis
      using True by (simp add: marked_parse_verdict_def part0_def [symmetric] Let_def)
  qed
qed

text \<open>The parser always answers with one of the four tokens.\<close>

lemma verdict_of_word_valid: "verdict_of_word w \<in> set VALID_VERDICTS"
  by (cases w) (simp_all add: verdict_of_word_def Let_def VALID_VERDICTS_def)

lemma marked_parse_verdict_valid: "marked_parse_verdict r \<in> set VALID_VERDICTS"
proof (cases "contains MARKER (before_first DELIMITER r)")
  case True
  then show ?thesis
    using verdict_of_word_valid [of "first_word (segment MARKER (before_first DELIMITER r))"]
    by (simp add: marked_parse_verdict_def Let_def)
next
  case False
  then show ?thesis
    by (simp add: marked_parse_verdict_def Let_def VALID_VERDICTS_def)
qed

lemma parse_verdict_valid: "\<exists>v. v \<in> set VALID_VERDICTS \<and> parse_verdict r = Inr v"
  using marked_parse_verdict_valid [of r] parse_verdict_marked [of r] by blast

lemma parse_verdict_nonempty: "parse_verdict r = Inr v \<Longrightarrow> v \<noteq> []"
proof -
  assume a: "parse_verdict r = Inr v"
  have "v = marked_parse_verdict r" using a parse_verdict_marked [of r] by simp
  then have "v \<in> set VALID_VERDICTS" using marked_parse_verdict_valid [of r] by simp
  then show ?thesis unfolding VALID_VERDICTS_def by auto
qed

text \<open>Where the text after the first marker holds no second marker, the specification's
  reading and the code's agree.\<close>

lemma spec_parse_verdict_one_marker:
  "\<not> contains MARKER (after_first MARKER (before_first DELIMITER r)) \<Longrightarrow>
   parse_verdict r = Inr (spec_parse_verdict r)"
  by (simp add: parse_verdict_marked marked_parse_verdict_def spec_parse_verdict_def
      segment_def before_first_no_match Let_def)

lemma parse_verdict_no_marker:
  "\<not> contains MARKER (before_first DELIMITER r) \<Longrightarrow> parse_verdict r = Inr ''UNVERIFIED''"
  by (simp add: parse_verdict_marked marked_parse_verdict_def Let_def)

text \<open>
  Claim C4, as the specification words it: the parse step returns the first
  whitespace-delimited word after the \<^verbatim>\<open>**Verdict:**\<close> marker of the summary section. It fails
  on a report whose verdict word is directly followed by a second marker: the code splits the
  summary on the marker and reads the piece between the first two matches, so it answers
  \<^verbatim>\<open>TRUE\<close>, while the first word after the marker is \<^verbatim>\<open>TRUE**Verdict:**\<close>, no token.
\<close>

theorem parse_verdict_second_marker_counterexample:
  "parse_verdict ''**Verdict:** TRUE**Verdict:**'' = Inr ''TRUE'' \<and>
   spec_parse_verdict ''**Verdict:** TRUE**Verdict:**'' = ''UNVERIFIED''"
  by code_simp

text \<open>
  Claim C4, amended: for every report string the parse step never raises and returns the
  first whitespace-delimited word of the text between the first \<^verbatim>\<open>**Verdict:**\<close> marker of
  the section before the delimiter and the next match of that marker (or the end of the
  section), with \<^verbatim>\<open>**\<close> removed and uppercased, whenever that word is one of
  TRUE/FALSE/MISLEADING/UNVERIFIED; in every other case (no marker, no word, a word that is
  no token) it returns UNVERIFIED. A report holding \<^verbatim>\<open>**Verdict:** FALSE **more text**\<close>
  parses to FALSE, and a report with no marker parses to UNVERIFIED.
\<close>

theorem parse_verdict_between_markers:
  "parse_verdict report = Inr (marked_parse_verdict report) \<and>
   parse_verdict ''**Verdict:** FALSE **more text**'' = Inr ''FALSE'' \<and>
   (\<not> contains MARKER (before_first DELIMITER report) \<longrightarrow>
      parse_verdict report = Inr ''UNVERIFIED'')"
proof (intro conjI impI)
  show "parse_verdict report = Inr (marked_parse_verdict report)"
    by (rule parse_verdict_marked)
  show "parse_verdict ''**Verdict:** FALSE **more text**'' = Inr ''FALSE''"
    by code_simp
  show "parse_verdict report = Inr ''UNVERIFIED''"
    if "\<not> contains MARKER (before_first DELIMITER report)"
    using that by (rule parse_verdict_no_marker)
qed

theorem parse_verdict_between_markers_witness:
  "\<not> contains MARKER (before_first DELIMITER ''Summary: nothing found'') \<and>
   parse_verdict ''Summary: nothing found'' = Inr ''UNVERIFIED'' \<and>
   parse_verdict ''**Verdict:** **misleading** ---DETAILED_REPORT_START--- x'' = Inr ''MISLEADING''"
proof -
  have a: "\<not> contains MARKER (before_first DELIMITER ''Summary: nothing found'')"
    by code_simp
  have b: "marked_parse_verdict ''**Verdict:** **misleading** ---DETAILED_REPORT_START--- x''
             = ''MISLEADING''"
    by code_simp
  note t1 = parse_verdict_between_markers [of "''Summary: nothing found''"]
  note t2 = parse_verdict_between_markers
    [of "''**Verdict:** **misleading** ---DETAILED_REPORT_START--- x''"]
  have c: "parse_verdict ''Summary: nothing found'' = Inr ''UNVERIFIED''"
    by (rule t1 [THEN conjunct2, THEN conjunct2, THEN mp, OF a])
  have d: "parse_verdict ''**Verdict:** **misleading** ---DETAILED_REPORT_START--- x''
             = Inr ''MISLEADING''"
    using t2 [THEN conjunct1] unfolding b .
  show ?thesis
    by (intro conjI a c d)
qed

section \<open>The reputation cache\<close>

lemma status_map_get_spec: "status_map_get key = spec_status_pair key"
  by (simp add: status_map_get_def spec_status_pair_def)

lemma update_internal_db_written:
  assumes "url \<noteq> []" and "token \<noteq> []" and "netloc env url = Some nl"
    and "\<not> db_fault env ReputationUpsert"
  shows "update_internal_db env url token original_claim db =
           db\<lparr>domain_reputation :=
                (domain_reputation db)(replace ''www.'' '''' nl \<mapsto> status_map_get (upper token))\<rparr>"
  using assms by (simp add: update_internal_db_def Let_def)

lemma check_internal_db_found:
  assumes "netloc env url = Some nl" and "\<not> db_fault env ReputationSelect"
    and "domain_reputation db (replace ''www.'' '''' nl) = Some (status, confidence)"
  shows "check_internal_db env url db =
           Some (''INTERNAL RECORD FOUND: '' @ replace ''www.'' '''' nl @ '' is confirmed as **''
                 @ status @ ''** (Confidence: '' @ str_int confidence @ ''%).'')"
  using assms by (simp add: check_internal_db_def Let_def)

lemma check_internal_db_absent:
  assumes "netloc env url = Some nl"
    and "domain_reputation db (replace ''www.'' '''' nl) = None"
  shows "check_internal_db env url db = None"
  using assms by (simp add: check_internal_db_def Let_def)

text \<open>What \<^verbatim>\<open>update_internal_db\<close> leaves alone: the two other tables always, and the
  reputation table as a whole when the guard, the url parser or the store stops the write.\<close>

lemma update_internal_db_history:
  "verification_history (update_internal_db env url token c db) = verification_history db"
  "history_seq (update_internal_db env url token c db) = history_seq db"
  "source_logs (update_internal_db env url token c db) = source_logs db"
  "source_seq (update_internal_db env url token c db) = source_seq db"
  by (simp_all add: update_internal_db_def Let_def split: option.splits)

text \<open>
  Claim C5, as the specification words it: the pair written for a verdict token is the one the
  fixed table gives for that token, every token other than the four named ones giving
  (UNVERIFIED, 50). The code looks the table up with \<^verbatim>\<open>verdict.upper()\<close>: for the token
  \<^verbatim>\<open>true\<close>, which is none of the four, it writes (TRUSTED, 90).
\<close>

theorem update_internal_db_lowercase_counterexample:
  "domain_reputation
     (update_internal_db example_env ''https://www.example.com/story'' ''true''
        ''a claim'' empty_db) ''example.com'' = Some (''TRUSTED'', 90) \<and>
   spec_status_pair ''true'' = (''UNVERIFIED'', 50)"
  by code_simp

text \<open>
  Claim C5, amended: for every non-empty URL whose network location \<^verbatim>\<open>urlparse\<close> returns and
  every non-empty verdict token, when the store takes the write, upsert writes the reputation
  record keyed by the network location with every \<^verbatim>\<open>www.\<close> removed, with the pair the fixed
  table gives for the \<^emph>\<open>uppercased\<close> token, and changes nothing else; a lookup of the same URL
  then reports that status and confidence; a second upsert for the same URL overwrites the
  record as a whole (last write wins).
\<close>

theorem update_internal_db_upsert:
  "url \<noteq> [] \<and> token \<noteq> [] \<and> token' \<noteq> [] \<and> netloc env url = Some nl \<and>
   \<not> db_fault env ReputationUpsert \<longrightarrow>
     update_internal_db env url token claim db =
       db\<lparr>domain_reputation :=
            (domain_reputation db)(replace ''www.'' '''' nl \<mapsto> spec_status_pair (upper token))\<rparr> \<and>
     (\<not> db_fault env ReputationSelect \<longrightarrow>
        check_internal_db env url (update_internal_db env url token claim db) =
          Some (''INTERNAL RECORD FOUND: '' @ replace ''www.'' '''' nl @ '' is confirmed as **''
                @ fst (spec_status_pair (upper token)) @ ''** (Confidence: ''
                @ str_int (snd (spec_status_pair (upper token))) @ ''%).'')) \<and>
     update_internal_db env url token' claim' (update_internal_db env url token claim db) =
       db\<lparr>domain_reputation :=
            (domain_reputation db)(replace ''www.'' '''' nl \<mapsto> spec_status_pair (upper token'))\<rparr>"
proof (intro impI)
  let ?d = "replace ''www.'' '''' nl"
  assume a: "url \<noteq> [] \<and> token \<noteq> [] \<and> token' \<noteq> [] \<and> netloc env url = Some nl \<and>
   \<not> db_fault env ReputationUpsert"
  then have u: "url \<noteq> []" and v: "token \<noteq> []" and v': "token' \<noteq> []"
    and n: "netloc env url = Some nl" and f: "\<not> db_fault env ReputationUpsert"
    by simp_all
  have w: "update_internal_db env url token claim db =
             db\<lparr>domain_reputation := (domain_reputation db)(?d \<mapsto> spec_status_pair (upper token))\<rparr>"
    using u v n f by (simp add: update_internal_db_written status_map_get_spec)
  have l: "check_internal_db env url (update_internal_db env url token claim db) =
           Some (''INTERNAL RECORD FOUND: '' @ ?d @ '' is confirmed as **''
                 @ fst (spec_status_pair (upper token)) @ ''** (Confidence: ''
                 @ str_int (snd (spec_status_pair (upper token))) @ ''%).'')"
    if s: "\<not> db_fault env ReputationSelect"
  proof (rule check_internal_db_found)
    show "netloc env url = Some nl" by (rule n)
    show "\<not> db_fault env ReputationSelect" by (rule s)
    show "domain_reputation (update_internal_db env url token claim db) ?d =
            Some (fst (spec_status_pair (upper token)), snd (spec_status_pair (upper token)))"
      by (simp add: w)
  qed
  have o: "update_internal_db env url token' claim' (update_internal_db env url token claim db) =
          db\<lparr>domain_reputation :=
               (domain_reputation db)(?d \<mapsto> spec_status_pair (upper token'))\<rparr>"
    using u v v' n f by (simp add: update_internal_db_written status_map_get_spec)
  show "update_internal_db env url token claim db =
       db\<lparr>domain_reputation :=
            (domain_reputation db)(?d \<mapsto> spec_status_pair (upper token))\<rparr> \<and>
     (\<not> db_fault env ReputationSelect \<longrightarrow>
        check_internal_db env url (update_internal_db env url token claim db) =
          Some (''INTERNAL RECORD FOUND: '' @ ?d @ '' is confirmed as **''
                @ fst (spec_status_pair (upper token)) @ ''** (Confidence: ''
                @ str_int (snd (spec_status_pair (upper token))) @ ''%).'')) \<and>
     update_internal_db env url token' claim' (update_internal_db env url token claim db) =
       db\<lparr>domain_reputation :=
            (domain_reputation db)(?d \<mapsto> spec_status_pair (upper token'))\<rparr>"
    using w l o by (intro conjI impI)
qed

theorem update_internal_db_upsert_witness:
  "''https://www.example.com/story'' \<noteq> [] \<and> ''TRUE'' \<noteq> [] \<and> ''FALSE'' \<noteq> [] \<and>
   netloc example_env ''https://www.example.com/story'' = Some ''www.example.com'' \<and>
   \<not> db_fault example_env ReputationUpsert \<and> \<not> db_fault example_env ReputationSelect \<and>
   domain_reputation
     (update_internal_db example_env ''https://www.example.com/story'' ''TRUE'' ''a claim'' empty_db)
     ''example.com'' = Some (''TRUSTED'', 90) \<and>
   check_internal_db example_env ''https://www.example.com/story''
     (update_internal_db example_env ''https://www.example.com/story'' ''TRUE'' ''a claim'' empty_db)
     = Some ''INTERNAL RECORD FOUND: example.com is confirmed as **TRUSTED** (Confidence: 90%).'' \<and>
   domain_reputation
     (update_internal_db example_env ''https://www.example.com/story'' ''FALSE'' ''a claim''
        (update_internal_db example_env ''https://www.example.com/story'' ''TRUE'' ''a claim''
           empty_db))
     ''example.com'' = Some (''PROPAGANDA'', 95)"
proof -
  let ?u = "''https://www.example.com/story''"
  have h1: "?u \<noteq> []" and h2: "''TRUE'' \<noteq> []" and h3: "''FALSE'' \<noteq> []" by simp_all
  have h4: "netloc example_env ?u = Some ''www.example.com''" by (simp add: example_env_def)
  have h5: "\<not> db_fault example_env ReputationUpsert" by (simp add: example_env_def)
  have h6: "\<not> db_fault example_env ReputationSelect" by (simp add: example_env_def)
  have d: "replace ''www.'' '''' ''www.example.com'' = ''example.com''" by code_simp
  have pT: "spec_status_pair (upper ''TRUE'') = (''TRUSTED'', 90)" by code_simp
  have pF: "spec_status_pair (upper ''FALSE'') = (''PROPAGANDA'', 95)" by code_simp
  have n90: "str_int 90 = ''90''" by code_simp
  have hyp: "?u \<noteq> [] \<and> ''TRUE'' \<noteq> [] \<and> ''FALSE'' \<noteq> [] \<and>
     netloc example_env ?u = Some ''www.example.com'' \<and> \<not> db_fault example_env ReputationUpsert"
    by (intro conjI h1 h2 h3 h4 h5)
  note t = update_internal_db_upsert
    [of ?u "''TRUE''" "''FALSE''" example_env "''www.example.com''" "''a claim''" empty_db
        "''a claim''", THEN mp, OF hyp]
  note t1 = t [THEN conjunct1]
  note t2 = t [THEN conjunct2, THEN conjunct1, THEN mp, OF h6]
  note t3 = t [THEN conjunct2, THEN conjunct2]
  have a: "domain_reputation (update_internal_db example_env ?u ''TRUE'' ''a claim'' empty_db)
             ''example.com'' = Some (''TRUSTED'', 90)"
    unfolding t1 d pT by simp
  have b: "check_internal_db example_env ?u
             (update_internal_db example_env ?u ''TRUE'' ''a claim'' empty_db)
           = Some ''INTERNAL RECORD FOUND: example.com is confirmed as **TRUSTED** (Confidence: 90%).''"
    unfolding t2 d pT by (simp add: n90)
  have c: "domain_reputation
             (update_internal_db example_env ?u ''FALSE'' ''a claim''
                (update_internal_db example_env ?u ''TRUE'' ''a claim'' empty_db))
             ''example.com'' = Some (''PROPAGANDA'', 95)"
    unfolding t3 d pF by simp
  show ?thesis
    by (intro conjI h1 h2 h3 h4 h5 h6 a b c)
qed

section \<open>The audit delete endpoint\<close>

lemma length_filter_ids:
  assumes "distinct (map h_id rows)"
  shows "length (filter (\<lambda>r. h_id r \<in> S) rows) = card (S \<inter> h_id ` set rows)"
proof -
  have dr: "distinct rows" and inj: "inj_on h_id (set rows)"
    using assms by (simp_all add: distinct_map)
  have "length (filter (\<lambda>r. h_id r \<in> S) rows) = card ({r. h_id r \<in> S} \<inter> set rows)"
    using dr by (rule distinct_length_filter)
  also have "\<dots> = card (h_id ` ({r. h_id r \<in> S} \<inter> set rows))"
    by (rule card_image [symmetric]) (rule inj_on_subset [OF inj], simp)
  also have "h_id ` ({r. h_id r \<in> S} \<inter> set rows) = S \<inter> h_id ` set rows"
    by auto
  finally show ?thesis .
qed

lemma delete_logs_forbidden:
  "role \<noteq> ''admin'' \<Longrightarrow>
   delete_logs env ids role db =
     (Inl (HTTPException 403 ''Permission Denied: Only Admin users can delete audit logs.''), db)"
  by (simp add: delete_logs_def)

lemma delete_logs_admin:
  assumes "ids \<noteq> []" and "\<not> db_fault env HistoryDelete"
  shows "delete_logs env ids ''admin'' db =
           (Inr \<lparr>resp_status = ''success'',
                 resp_message = ''Successfully deleted ''
                   @ str_int (int (length (filter (\<lambda>r. h_id r \<in> set ids)
                                                 (verification_history db))))
                   @ '' log(s).''\<rparr>,
            db\<lparr>verification_history :=
                  filter (\<lambda>r. h_id r \<notin> set ids) (verification_history db)\<rparr>)"
  using assms by (simp add: delete_logs_def Let_def)

lemma delete_logs_source_logs:
  "source_logs (snd (delete_logs env ids role db)) = source_logs db"
  by (simp add: delete_logs_def Let_def)

lemma delete_logs_failed:
  assumes "ids \<noteq> []" and "db_fault env HistoryDelete"
  shows "delete_logs env ids ''admin'' db = (Inl (HTTPException 500 ''Failed to delete logs''), db)"
  using assms by (simp add: delete_logs_def)

text \<open>
  Claim C8, as the specification words it: for the admin role and a non-empty id list, exactly
  the rows whose ids are listed are deleted. It fails when the \<^verbatim>\<open>DELETE\<close> statement raises:
  the handler of \<^verbatim>\<open>delete_logs\<close> answers with status 500 and the table is left as it was,
  so the listed row 1 is still there.
\<close>

theorem delete_logs_fault_counterexample:
  "delete_logs failing_delete_env [1] ''admin'' audit_db =
     (Inl (HTTPException 500 ''Failed to delete logs''), audit_db) \<and>
   example_history_row 1
     \<in> set (verification_history (snd (delete_logs failing_delete_env [1] ''admin'' audit_db))) \<and>
   h_id (example_history_row 1) \<in> set [1]"
proof -
  have e: "delete_logs failing_delete_env [1] ''admin'' audit_db =
             (Inl (HTTPException 500 ''Failed to delete logs''), audit_db)"
    by (rule delete_logs_failed) (simp_all add: failing_delete_env_def)
  have m: "example_history_row 1
     \<in> set (verification_history (snd (delete_logs failing_delete_env [1] ''admin'' audit_db)))"
    unfolding e by (simp add: audit_db_def)
  have i: "h_id (example_history_row 1) \<in> set [1]"
    by (simp add: example_history_row_def)
  show ?thesis
    by (intro conjI e m i)
qed

text \<open>
  Claim C8, amended: a delete request of a role other than admin is rejected with the
  permission error (status 403) and the store is left as it was; for the admin role and a
  non-empty id list, when the \<^verbatim>\<open>DELETE\<close> statement raises, the request is answered with
  status 500 and the store is left as it was, and when the statement runs, the rows of
  \<^verbatim>\<open>verification_history\<close> that stay are exactly those whose id is not listed, in their
  order, nothing else changes, and the count of the answer is the number of listed ids present
  in the table (ids being the primary key of the table, no two rows share one).
\<close>

theorem delete_logs_authorized:
  "(role \<noteq> ''admin'' \<longrightarrow>
      delete_logs env ids role db =
        (Inl (HTTPException 403 ''Permission Denied: Only Admin users can delete audit logs.''),
         db)) \<and>
   (role = ''admin'' \<and> ids \<noteq> [] \<and> db_fault env HistoryDelete \<longrightarrow>
      delete_logs env ids role db =
        (Inl (HTTPException 500 ''Failed to delete logs''), db)) \<and>
   (role = ''admin'' \<and> ids \<noteq> [] \<and> \<not> db_fault env HistoryDelete \<and>
    distinct (map h_id (verification_history db)) \<longrightarrow>
      delete_logs env ids role db =
        (Inr \<lparr>resp_status = ''success'',
              resp_message = ''Successfully deleted ''
                @ str_int (int (card (set ids \<inter> h_id ` set (verification_history db))))
                @ '' log(s).''\<rparr>,
         db\<lparr>verification_history :=
               filter (\<lambda>r. h_id r \<notin> set ids) (verification_history db)\<rparr>) \<and>
      set (verification_history (snd (delete_logs env ids role db))) =
        {r \<in> set (verification_history db). h_id r \<notin> set ids})"
proof (intro conjI impI)
  show "delete_logs env ids role db =
        (Inl (HTTPException 403 ''Permission Denied: Only Admin users can delete audit logs.''),
         db)" if "role \<noteq> ''admin''"
    using that by (rule delete_logs_forbidden)
next
  assume a: "role = ''admin'' \<and> ids \<noteq> [] \<and> db_fault env HistoryDelete"
  then have r: "role = ''admin''" and i: "ids \<noteq> []" and f: "db_fault env HistoryDelete"
    by simp_all
  show "delete_logs env ids role db = (Inl (HTTPException 500 ''Failed to delete logs''), db)"
    unfolding r by (rule delete_logs_failed [OF i f])
next
  assume a: "role = ''admin'' \<and> ids \<noteq> [] \<and> \<not> db_fault env HistoryDelete \<and>
    distinct (map h_id (verification_history db))"
  then have r: "role = ''admin''" and i: "ids \<noteq> []" and f: "\<not> db_fault env HistoryDelete"
    and d: "distinct (map h_id (verification_history db))" by simp_all
  note e = delete_logs_admin [OF i f, of db]
  show "delete_logs env ids role db =
        (Inr \<lparr>resp_status = ''success'',
              resp_message = ''Successfully deleted ''
                @ str_int (int (card (set ids \<inter> h_id ` set (verification_history db))))
                @ '' log(s).''\<rparr>,
         db\<lparr>verification_history :=
               filter (\<lambda>r. h_id r \<notin> set ids) (verification_history db)\<rparr>)"
    unfolding r e length_filter_ids [OF d] ..
  show "set (verification_history (snd (delete_logs env ids role db))) =
        {r \<in> set (verification_history db). h_id r \<notin> set ids}"
    unfolding r e by simp
qed

theorem delete_logs_authorized_witness:
  "''standard'' \<noteq> ''admin'' \<and>
   delete_logs example_env [1, 2] ''standard'' audit_db =
     (Inl (HTTPException 403 ''Permission Denied: Only Admin users can delete audit logs.''),
      audit_db) \<and>
   [1, 1, 7] \<noteq> ([] :: int list) \<and> db_fault failing_delete_env HistoryDelete \<and>
   delete_logs failing_delete_env [1, 1, 7] ''admin'' audit_db =
     (Inl (HTTPException 500 ''Failed to delete logs''), audit_db) \<and>
   \<not> db_fault example_env HistoryDelete \<and>
   distinct (map h_id (verification_history audit_db)) \<and>
   fst (delete_logs example_env [1, 1, 7] ''admin'' audit_db) =
     Inr \<lparr>resp_status = ''success'', resp_message = ''Successfully deleted 1 log(s).''\<rparr> \<and>
   verification_history (snd (delete_logs example_env [1, 1, 7] ''admin'' audit_db)) =
     [example_history_row 2, example_history_row 3]"
proof -
  have h0: "''standard'' \<noteq> ''admin''" by simp
  have h1: "[1, 1, 7] \<noteq> ([] :: int list)" by simp
  have h2: "\<not> db_fault example_env HistoryDelete" by (simp add: example_env_def)
  have h3: "distinct (map h_id (verification_history audit_db))"
    by (simp add: audit_db_def example_history_row_def)
  have h4: "db_fault failing_delete_env HistoryDelete" by (simp add: failing_delete_env_def)
  note t0 = delete_logs_authorized [of "''standard''" example_env "[1, 2]" audit_db]
  note t1 = delete_logs_authorized [of "''admin''" example_env "[1, 1, 7]" audit_db]
  note t2 = delete_logs_authorized [of "''admin''" failing_delete_env "[1, 1, 7]" audit_db]
  have a: "delete_logs example_env [1, 2] ''standard'' audit_db =
     (Inl (HTTPException 403 ''Permission Denied: Only Admin users can delete audit logs.''),
      audit_db)"
    by (rule t0 [THEN conjunct1, THEN mp, OF h0])
  have g: "delete_logs failing_delete_env [1, 1, 7] ''admin'' audit_db =
     (Inl (HTTPException 500 ''Failed to delete logs''), audit_db)"
    using t2 [THEN conjunct2, THEN conjunct1, THEN mp] h1 h4 by simp
  have k: "card (set [1, 1, 7] \<inter> h_id ` set (verification_history audit_db)) = 1"
    by (simp add: audit_db_def example_history_row_def)
  have n1: "str_int (int 1) = ''1''" by code_simp
  have f: "filter (\<lambda>r. h_id r \<notin> set [1, 1, 7]) (verification_history audit_db) =
             [example_history_row 2, example_history_row 3]"
    by (simp add: audit_db_def example_history_row_def)
  have e: "delete_logs example_env [1, 1, 7] ''admin'' audit_db =
        (Inr \<lparr>resp_status = ''success'',
              resp_message = ''Successfully deleted ''
                @ str_int (int (card (set [1, 1, 7] \<inter> h_id ` set (verification_history audit_db))))
                @ '' log(s).''\<rparr>,
         audit_db\<lparr>verification_history :=
               filter (\<lambda>r. h_id r \<notin> set [1, 1, 7]) (verification_history audit_db)\<rparr>)"
    using t1 [THEN conjunct2, THEN conjunct2, THEN mp] h1 h2 h3 by simp
  have b: "fst (delete_logs example_env [1, 1, 7] ''admin'' audit_db) =
     Inr \<lparr>resp_status = ''success'', resp_message = ''Successfully deleted 1 log(s).''\<rparr>"
    unfolding e k n1 by simp
  have c: "verification_history (snd (delete_logs example_env [1, 1, 7] ''admin'' audit_db)) =
     [example_history_row 2, example_history_row 3]"
    unfolding e f by simp
  show ?thesis
    by (intro conjI h0 a h1 h4 g h2 h3 b c)
qed

text \<open>
  Claim C10: for every delete request, whatever the role and the id list, and whether it is
  rejected, empty, failing or carried out, the table \<^verbatim>\<open>source_logs\<close> is what it was. In the
  example the history row 1 is deleted and the source row that names it as its claim stays,
  with no history row of that id left.
\<close>

theorem delete_logs_keeps_source_logs:
  "source_logs (snd (delete_logs env ids role db)) = source_logs db \<and>
   source_seq (snd (delete_logs env ids role db)) = source_seq db \<and>
   example_source_row 1 1 \<in> set (source_logs (snd (delete_logs example_env [1] ''admin'' audit_db))) \<and>
   1 \<notin> h_id ` set (verification_history (snd (delete_logs example_env [1] ''admin'' audit_db)))"
proof (intro conjI)
  show "source_logs (snd (delete_logs env ids role db)) = source_logs db"
    by (rule delete_logs_source_logs)
  show "source_seq (snd (delete_logs env ids role db)) = source_seq db"
    by (simp add: delete_logs_def Let_def)
  have e: "delete_logs example_env [1] ''admin'' audit_db =
           (Inr \<lparr>resp_status = ''success'',
                 resp_message = ''Successfully deleted ''
                   @ str_int (int (length (filter (\<lambda>r. h_id r \<in> set [1])
                                                 (verification_history audit_db))))
                   @ '' log(s).''\<rparr>,
            audit_db\<lparr>verification_history :=
                  filter (\<lambda>r. h_id r \<notin> set [1]) (verification_history audit_db)\<rparr>)"
    by (rule delete_logs_admin) (simp_all add: example_env_def)
  show "example_source_row 1 1
          \<in> set (source_logs (snd (delete_logs example_env [1] ''admin'' audit_db)))"
    unfolding e by (simp add: audit_db_def)
  show "1 \<notin> h_id ` set (verification_history (snd (delete_logs example_env [1] ''admin'' audit_db)))"
    unfolding e by (simp add: audit_db_def example_history_row_def)
qed

theorem delete_logs_keeps_source_logs_witness:
  "source_logs (snd (delete_logs example_env [1, 2, 3] ''admin'' audit_db)) =
     [example_source_row 1 1, example_source_row 2 2] \<and>
   verification_history (snd (delete_logs example_env [1, 2, 3] ''admin'' audit_db)) = []"
proof -
  have a: "source_logs (snd (delete_logs example_env [1, 2, 3] ''admin'' audit_db)) =
             source_logs audit_db"
    by (rule delete_logs_keeps_source_logs [THEN conjunct1])
  have b: "verification_history (snd (delete_logs example_env [1, 2, 3] ''admin'' audit_db)) = []"
    by (simp add: delete_logs_def Let_def example_env_def audit_db_def example_history_row_def)
  show ?thesis
    using a b by (simp add: audit_db_def)
qed

section \<open>The claim extractor\<close>

lemma claim_text_pre_processor_result:
  "claim_text (st (pre_processor_result c w)) = Some c"
  by (simp add: pre_processor_result_def)

lemma start_node_initial:
  "start_node env (initial_world (initial_state input it img role) d) = Returned w \<Longrightarrow>
   messages (st w) = [UserTuple ''user'' input, UserTuple ''user'' input] \<and>
   input_type (st w) = it \<and> llm_calls w = 0"
  by (auto simp add: start_node_def initial_world_def initial_state_def)

lemma pre_processor_node_nonempty:
  "messages (st w) \<noteq> [] \<Longrightarrow>
   pre_processor_node env w =
     (let input_text = message_text (last (messages (st w))) in
      if input_type (st w) = ''url'' then
        (case scrape_website env input_text of
           None \<Rightarrow> Returned (pre_processor_result input_text w)
         | Some page \<Rightarrow>
             (case ainvoke env w of
                (None, w') \<Rightarrow> Raised ProviderError w'
              | (Some extraction, w') \<Rightarrow> Returned (pre_processor_result extraction w')))
      else if input_type (st w) = ''image'' then
        Returned (pre_processor_result ''Analyze image for authenticity and context.'' w)
      else Returned (pre_processor_result input_text w))"
  by (cases "messages (st w)") (simp_all add: pre_processor_node_def)

lemma pre_processor_node_else:
  assumes "messages (st w) \<noteq> []" and "input_type (st w) \<noteq> ''url''"
    and "input_type (st w) \<noteq> ''image''"
  shows "pre_processor_node env w =
           Returned (pre_processor_result (message_text (last (messages (st w)))) w)"
  using assms by (simp add: pre_processor_node_nonempty Let_def)

lemma pre_processor_node_image:
  assumes "messages (st w) \<noteq> []" and "input_type (st w) = ''image''"
  shows "pre_processor_node env w =
           Returned (pre_processor_result ''Analyze image for authenticity and context.'' w)"
  using assms by (simp add: pre_processor_node_nonempty Let_def)

lemma pre_processor_node_fetch_failed:
  assumes "messages (st w) \<noteq> []" and "input_type (st w) = ''url''"
    and "scrape_website env (message_text (last (messages (st w)))) = None"
  shows "pre_processor_node env w =
           Returned (pre_processor_result (message_text (last (messages (st w)))) w)"
  using assms by (simp add: pre_processor_node_nonempty Let_def)

lemma pre_processor_node_extracted:
  assumes "messages (st w) \<noteq> []" and "input_type (st w) = ''url''"
    and "scrape_website env (message_text (last (messages (st w)))) = Some page"
    and "llm env (llm_calls w) = Some extraction"
  shows "pre_processor_node env w =
           Returned (pre_processor_result extraction (w\<lparr>llm_calls := Suc (llm_calls w)\<rparr>))"
  using assms by (simp add: pre_processor_node_nonempty Let_def ainvoke_def)

text \<open>
  Claim C9, as the specification words it: for an image the claim is the string
  \<^verbatim>\<open>analyze image for authenticity and context\<close>. The literal of \<^verbatim>\<open>pre_processor_node\<close>
  begins with a capital letter and ends with a full stop.
\<close>

theorem pre_processor_node_image_counterexample:
  "pre_processor_node example_env
     (outcome_world (start_node example_env
        (initial_world (initial_state ''photo'' ''image'' (Some ''data:image/png;base64,AAAA'')
           ''standard'') empty_db)))
   = Returned (pre_processor_result ''Analyze image for authenticity and context.''
       (outcome_world (start_node example_env
          (initial_world (initial_state ''photo'' ''image'' (Some ''data:image/png;base64,AAAA'')
             ''standard'') empty_db)))) \<and>
   claim_text (st (pre_processor_result ''Analyze image for authenticity and context.''
       (outcome_world (start_node example_env
          (initial_world (initial_state ''photo'' ''image'' (Some ''data:image/png;base64,AAAA'')
             ''standard'') empty_db)))))
     \<noteq> Some ''analyze image for authenticity and context''"
proof -
  have m: "messages (st (outcome_world (start_node example_env
        (initial_world (initial_state ''photo'' ''image'' (Some ''data:image/png;base64,AAAA'')
           ''standard'') empty_db)))) \<noteq> []"
    by (simp add: start_node_def initial_world_def initial_state_def)
  have t: "input_type (st (outcome_world (start_node example_env
        (initial_world (initial_state ''photo'' ''image'' (Some ''data:image/png;base64,AAAA'')
           ''standard'') empty_db)))) = ''image''"
    by (simp add: start_node_def initial_world_def initial_state_def)
  show ?thesis
    by (intro conjI) (simp_all add: pre_processor_node_image [OF m t] claim_text_pre_processor_result)
qed

text \<open>
  Claim C9, amended: for every request, when the claim extractor runs on the state the entry
  node leaves: for the type \<^verbatim>\<open>text\<close> the claim is the raw input, unchanged; for the type
  \<^verbatim>\<open>image\<close> it is the fixed string \<^verbatim>\<open>Analyze image for authenticity and context.\<close>; for the
  type \<^verbatim>\<open>url\<close>, when the page fetch fails, it is the raw URL and the node returns (no error
  is propagated), and when the fetch succeeds and the provider answers, it is the provider's
  answer verbatim.
\<close>

theorem pre_processor_node_claim:
  "start_node env (initial_world (initial_state input it img role) d) = Returned w \<longrightarrow>
     (it = ''text'' \<longrightarrow> pre_processor_node env w = Returned (pre_processor_result input w)) \<and>
     (it = ''image'' \<longrightarrow>
        pre_processor_node env w =
          Returned (pre_processor_result ''Analyze image for authenticity and context.'' w)) \<and>
     (it = ''url'' \<and> scrape_website env input = None \<longrightarrow>
        pre_processor_node env w = Returned (pre_processor_result input w)) \<and>
     (it = ''url'' \<and> scrape_website env input = Some page \<and> llm env 0 = Some extraction \<longrightarrow>
        pre_processor_node env w =
          Returned (pre_processor_result extraction (w\<lparr>llm_calls := Suc 0\<rparr>))) \<and>
     claim_text (st (pre_processor_result c w)) = Some c"
proof (intro impI)
  assume a: "start_node env (initial_world (initial_state input it img role) d) = Returned w"
  note s = start_node_initial [OF a]
  have m: "messages (st w) \<noteq> []" and l: "message_text (last (messages (st w))) = input"
    and t: "input_type (st w) = it" and n: "llm_calls w = 0"
    using s by simp_all
  have c1: "pre_processor_node env w = Returned (pre_processor_result input w)"
    if "it = ''text''"
    using pre_processor_node_else [OF m, of env] that t l by simp
  have c2: "pre_processor_node env w =
          Returned (pre_processor_result ''Analyze image for authenticity and context.'' w)"
    if "it = ''image''"
    using pre_processor_node_image [OF m, of env] that t by simp
  have c3: "pre_processor_node env w = Returned (pre_processor_result input w)"
    if "it = ''url'' \<and> scrape_website env input = None"
    using pre_processor_node_fetch_failed [OF m, of env] that t l by simp
  have c4: "pre_processor_node env w =
          Returned (pre_processor_result extraction (w\<lparr>llm_calls := Suc 0\<rparr>))"
    if "it = ''url'' \<and> scrape_website env input = Some page \<and> llm env 0 = Some extraction"
    using pre_processor_node_extracted [OF m, of env page extraction] that t l n by simp
  show "(it = ''text'' \<longrightarrow> pre_processor_node env w = Returned (pre_processor_result input w)) \<and>
     (it = ''image'' \<longrightarrow>
        pre_processor_node env w =
          Returned (pre_processor_result ''Analyze image for authenticity and context.'' w)) \<and>
     (it = ''url'' \<and> scrape_website env input = None \<longrightarrow>
        pre_processor_node env w = Returned (pre_processor_result input w)) \<and>
     (it = ''url'' \<and> scrape_website env input = Some page \<and> llm env 0 = Some extraction \<longrightarrow>
        pre_processor_node env w =
          Returned (pre_processor_result extraction (w\<lparr>llm_calls := Suc 0\<rparr>))) \<and>
     claim_text (st (pre_processor_result c w)) = Some c"
    using c1 c2 c3 c4 by (intro conjI impI claim_text_pre_processor_result)
qed

theorem pre_processor_node_claim_witness:
  "claim_text (st (outcome_world (pre_processor_node example_env
      (requested example_env ''The moon landing was faked'' ''text'' None ''standard'' empty_db))))
     = Some ''The moon landing was faked'' \<and>
   claim_text (st (outcome_world (pre_processor_node example_env
      (requested example_env ''photo'' ''image'' (Some ''data:image/png;base64,AAAA'') ''standard''
         empty_db))))
     = Some ''Analyze image for authenticity and context.'' \<and>
   scrape_website example_env ''https://www.example.com/story'' = None \<and>
   pre_processor_node example_env
      (requested example_env ''https://www.example.com/story'' ''url'' None ''standard'' empty_db)
     = Returned (pre_processor_result ''https://www.example.com/story''
         (requested example_env ''https://www.example.com/story'' ''url'' None ''standard''
            empty_db)) \<and>
   scrape_website extracting_env ''https://www.example.com/story''
     = Some ''Officials said on Friday that the bridge closes on Monday.'' \<and>
   llm extracting_env 0 = Some ''The bridge closes on Monday.'' \<and>
   claim_text (st (outcome_world (pre_processor_node extracting_env
      (requested extracting_env ''https://www.example.com/story'' ''url'' None ''standard''
         empty_db))))
     = Some ''The bridge closes on Monday.''"
proof -
  have s: "start_node env (initial_world (initial_state input it img role) d)
             = Returned (requested env input it img role d)" for env input it img role d
    by (simp add: requested_def start_node_def)
  note t = pre_processor_node_claim [THEN mp, OF s]
  have f: "scrape_website example_env ''https://www.example.com/story'' = None"
    by (simp add: scrape_website_def example_env_def startswith_def)
  have g: "scrape_website extracting_env ''https://www.example.com/story''
             = Some ''Officials said on Friday that the bridge closes on Monday.''"
    by (simp add: scrape_website_def extracting_env_def example_env_def startswith_def)
  have h: "llm extracting_env 0 = Some ''The bridge closes on Monday.''"
    by (simp add: extracting_env_def)
  have a: "pre_processor_node example_env
      (requested example_env ''The moon landing was faked'' ''text'' None ''standard'' empty_db)
     = Returned (pre_processor_result ''The moon landing was faked''
         (requested example_env ''The moon landing was faked'' ''text'' None ''standard'' empty_db))"
    by (rule t [THEN conjunct1, THEN mp, OF refl])
  have b: "pre_processor_node example_env
      (requested example_env ''photo'' ''image'' (Some ''data:image/png;base64,AAAA'') ''standard''
         empty_db)
     = Returned (pre_processor_result ''Analyze image for authenticity and context.''
         (requested example_env ''photo'' ''image'' (Some ''data:image/png;base64,AAAA'')
            ''standard'' empty_db))"
    by (rule t [THEN conjunct2, THEN conjunct1, THEN mp, OF refl])
  have c: "pre_processor_node example_env
      (requested example_env ''https://www.example.com/story'' ''url'' None ''standard'' empty_db)
     = Returned (pre_processor_result ''https://www.example.com/story''
         (requested example_env ''https://www.example.com/story'' ''url'' None ''standard''
            empty_db))"
    by (rule t [THEN conjunct2, THEN conjunct2, THEN conjunct1, THEN mp, OF conjI, OF refl f])
  have d: "pre_processor_node extracting_env
      (requested extracting_env ''https://www.example.com/story'' ''url'' None ''standard'' empty_db)
     = Returned (pre_processor_result ''The bridge closes on Monday.''
         ((requested extracting_env ''https://www.example.com/story'' ''url'' None ''standard''
            empty_db)\<lparr>llm_calls := Suc 0\<rparr>))"
    by (rule t [THEN conjunct2, THEN conjunct2, THEN conjunct2, THEN conjunct1, THEN mp,
                OF conjI, OF refl conjI, OF g h])
  show ?thesis
    by (intro conjI f g h c) (simp_all add: a b d claim_text_pre_processor_result)
qed

section \<open>The skeptic\<close>

lemma returned_outcome_world: "returned x \<Longrightarrow> x = Returned (outcome_world x)"
  by (cases x) simp_all

lemma researcher_summary_content:
  "researcher_summary env w = Returned w' \<Longrightarrow>
   messages (st w') \<noteq> [] \<and> (\<exists>c. last (messages (st w')) = AIMessage c) \<and>
   revision_count (st w') = revision_count (st w)"
  by (auto simp add: researcher_summary_def ainvoke_def split: option.splits)

lemma researcher_node_content:
  "researcher_node env w = Returned w' \<Longrightarrow>
   messages (st w') \<noteq> [] \<and> (\<exists>c. last (messages (st w')) = AIMessage c) \<and>
   revision_count (st w') = revision_count (st w)"
proof -
  assume a: "researcher_node env w = Returned w'"
  then obtain w1 where s: "researcher_summary env w1 = Returned w'" and r: "st w1 = st w"
    by (auto simp add: researcher_node_def ainvoke_def invoke_search_def
        split: option.splits if_splits)
  show ?thesis
    using researcher_summary_content [OF s] r by simp
qed

lemma skeptic_node_nonempty:
  "messages (st w) \<noteq> [] \<Longrightarrow> last (messages (st w)) = AIMessage research \<Longrightarrow>
   \<not> internal_record_found (st w) \<Longrightarrow> llm env (llm_calls w) = Some decision \<Longrightarrow>
   skeptic_node env w =
     (if startswith (strip decision) ''REJECTED'' \<and> revision_count (st w) < 1 then
        Returned (w\<lparr>llm_calls := Suc (llm_calls w),
                    st := (st w)\<lparr>messages := messages (st w)
                                      @ [AIMessage (''Critique: '' @ strip decision)],
                                    is_verified := False,
                                    revision_count := revision_count (st w) + 1\<rparr>\<rparr>)
      else
        Returned (w\<lparr>llm_calls := Suc (llm_calls w),
                    st := (st w)\<lparr>messages := messages (st w)
                                      @ [AIMessage ''Evidence accepted. Proceeding to final report.''],
                                    is_verified := True,
                                    revision_count := revision_count (st w)\<rparr>\<rparr>))"
  by (cases "messages (st w)") (simp_all add: skeptic_node_def Let_def ainvoke_def)

text \<open>
  Claim C3: the skeptic is entered from the researcher only, whose return leaves the
  provider's summary as the last message. On such a state, with no record of the reputation
  cache in it, when the provider gives its judgment (its answer, the white space around it
  stripped): if the judgment starts with \<^verbatim>\<open>REJECTED\<close> and \<^verbatim>\<open>revision_count\<close> is below 1, the
  node returns \<^verbatim>\<open>is_verified = False\<close> and \<^verbatim>\<open>revision_count\<close> one higher, and the graph
  goes back to the researcher; in every other case it returns \<^verbatim>\<open>is_verified = True\<close> and
  \<^verbatim>\<open>revision_count\<close> as it was, and the graph goes on to the reporter.
\<close>

theorem skeptic_node_decision:
  "(returned (researcher_node env w0) \<longrightarrow>
      messages (st (outcome_world (researcher_node env w0))) \<noteq> [] \<and>
      (\<exists>c. last (messages (st (outcome_world (researcher_node env w0)))) = AIMessage c)) \<and>
   (messages (st w) \<noteq> [] \<and> last (messages (st w)) = AIMessage research \<and>
    \<not> internal_record_found (st w) \<and> llm env (llm_calls w) = Some decision \<longrightarrow>
      (startswith (strip decision) ''REJECTED'' \<and> revision_count (st w) < 1 \<longrightarrow>
         skeptic_node env w =
           Returned (w\<lparr>llm_calls := Suc (llm_calls w),
                       st := (st w)\<lparr>messages := messages (st w)
                                         @ [AIMessage (''Critique: '' @ strip decision)],
                                       is_verified := False,
                                       revision_count := revision_count (st w) + 1\<rparr>\<rparr>) \<and>
         is_verified (st (outcome_world (skeptic_node env w))) = False \<and>
         revision_count (st (outcome_world (skeptic_node env w))) = revision_count (st w) + 1 \<and>
         next_node Skeptic (st (outcome_world (skeptic_node env w))) = Some Researcher) \<and>
      (\<not> (startswith (strip decision) ''REJECTED'' \<and> revision_count (st w) < 1) \<longrightarrow>
         skeptic_node env w =
           Returned (w\<lparr>llm_calls := Suc (llm_calls w),
                       st := (st w)\<lparr>messages := messages (st w)
                                         @ [AIMessage ''Evidence accepted. Proceeding to final report.''],
                                       is_verified := True,
                                       revision_count := revision_count (st w)\<rparr>\<rparr>) \<and>
         is_verified (st (outcome_world (skeptic_node env w))) = True \<and>
         revision_count (st (outcome_world (skeptic_node env w))) = revision_count (st w) \<and>
         next_node Skeptic (st (outcome_world (skeptic_node env w))) = Some Reporter))"
proof (intro conjI impI)
  assume "returned (researcher_node env w0)"
  then have r: "researcher_node env w0 = Returned (outcome_world (researcher_node env w0))"
    by (rule returned_outcome_world)
  note c = researcher_node_content [OF r]
  show "messages (st (outcome_world (researcher_node env w0))) \<noteq> []"
    using c by simp
  show "\<exists>c. last (messages (st (outcome_world (researcher_node env w0)))) = AIMessage c"
    using c by simp
next
  assume h: "messages (st w) \<noteq> [] \<and> last (messages (st w)) = AIMessage research \<and>
    \<not> internal_record_found (st w) \<and> llm env (llm_calls w) = Some decision"
    and j: "startswith (strip decision) ''REJECTED'' \<and> revision_count (st w) < 1"
  have e: "skeptic_node env w =
           Returned (w\<lparr>llm_calls := Suc (llm_calls w),
                       st := (st w)\<lparr>messages := messages (st w)
                                         @ [AIMessage (''Critique: '' @ strip decision)],
                                       is_verified := False,
                                       revision_count := revision_count (st w) + 1\<rparr>\<rparr>)"
    unfolding skeptic_node_nonempty [OF h [THEN conjunct1] h [THEN conjunct2, THEN conjunct1]
        h [THEN conjunct2, THEN conjunct2, THEN conjunct1]
        h [THEN conjunct2, THEN conjunct2, THEN conjunct2]]
    by (rule if_P [OF j])
  show "skeptic_node env w =
           Returned (w\<lparr>llm_calls := Suc (llm_calls w),
                       st := (st w)\<lparr>messages := messages (st w)
                                         @ [AIMessage (''Critique: '' @ strip decision)],
                                       is_verified := False,
                                       revision_count := revision_count (st w) + 1\<rparr>\<rparr>)"
    by (rule e)
  show "is_verified (st (outcome_world (skeptic_node env w))) = False"
    by (simp add: e)
  show "revision_count (st (outcome_world (skeptic_node env w))) = revision_count (st w) + 1"
    by (simp add: e)
  show "next_node Skeptic (st (outcome_world (skeptic_node env w))) = Some Researcher"
    by (simp add: e)
next
  assume h: "messages (st w) \<noteq> [] \<and> last (messages (st w)) = AIMessage research \<and>
    \<not> internal_record_found (st w) \<and> llm env (llm_calls w) = Some decision"
    and j: "\<not> (startswith (strip decision) ''REJECTED'' \<and> revision_count (st w) < 1)"
  have e: "skeptic_node env w =
           Returned (w\<lparr>llm_calls := Suc (llm_calls w),
                       st := (st w)\<lparr>messages := messages (st w)
                                         @ [AIMessage ''Evidence accepted. Proceeding to final report.''],
                                       is_verified := True,
                                       revision_count := revision_count (st w)\<rparr>\<rparr>)"
    unfolding skeptic_node_nonempty [OF h [THEN conjunct1] h [THEN conjunct2, THEN conjunct1]
        h [THEN conjunct2, THEN conjunct2, THEN conjunct1]
        h [THEN conjunct2, THEN conjunct2, THEN conjunct2]]
    by (rule if_not_P [OF j])
  show "skeptic_node env w =
           Returned (w\<lparr>llm_calls := Suc (llm_calls w),
                       st := (st w)\<lparr>messages := messages (st w)
                                         @ [AIMessage ''Evidence accepted. Proceeding to final report.''],
                                       is_verified := True,
                                       revision_count := revision_count (st w)\<rparr>\<rparr>)"
    by (rule e)
  show "is_verified (st (outcome_world (skeptic_node env w))) = True"
    by (simp add: e)
  show "revision_count (st (outcome_world (skeptic_node env w))) = revision_count (st w)"
    by (simp add: e)
  show "next_node Skeptic (st (outcome_world (skeptic_node env w))) = Some Reporter"
    by (simp add: e)
qed

theorem skeptic_node_decision_witness:
  "returned (researcher_node rejecting_env
     (outcome_world (pre_processor_node rejecting_env
        (requested rejecting_env ''The moon landing was faked'' ''text'' None ''standard''
           empty_db)))) \<and>
   messages (st researched) \<noteq> [] \<and>
   last (messages (st researched)) = AIMessage ''Two sources contradict the claim.'' \<and>
   \<not> internal_record_found (st researched) \<and>
   llm rejecting_env (llm_calls researched) = Some ''REJECTED: the sources are vague'' \<and>
   startswith (strip ''REJECTED: the sources are vague'') ''REJECTED'' \<and>
   revision_count (st researched) < 1 \<and>
   is_verified (st (outcome_world (skeptic_node rejecting_env researched))) = False \<and>
   revision_count (st (outcome_world (skeptic_node rejecting_env researched))) = 1 \<and>
   next_node Skeptic (st (outcome_world (skeptic_node rejecting_env researched)))
     = Some Researcher \<and>
   llm rejecting_env (llm_calls researched_again) = Some ''REJECTED: the sources are vague'' \<and>
   revision_count (st researched_again) = 1 \<and>
   is_verified (st (outcome_world (skeptic_node rejecting_env researched_again))) = True \<and>
   revision_count (st (outcome_world (skeptic_node rejecting_env researched_again))) = 1 \<and>
   llm empty_report_env (llm_calls researched) = Some ''APPROVED'' \<and>
   is_verified (st (outcome_world (skeptic_node empty_report_env researched))) = True \<and>
   revision_count (st (outcome_world (skeptic_node empty_report_env researched))) = 0 \<and>
   next_node Skeptic (st (outcome_world (skeptic_node empty_report_env researched)))
     = Some Reporter"
proof -
  have p: "returned (researcher_node rejecting_env
     (outcome_world (pre_processor_node rejecting_env
        (requested rejecting_env ''The moon landing was faked'' ''text'' None ''standard''
           empty_db))))"
    by code_simp
  have m: "messages (st researched) \<noteq> []"
    using skeptic_node_decision [THEN conjunct1, THEN mp, OF p, THEN conjunct1]
    unfolding researched_def .
  have l: "last (messages (st researched)) = AIMessage ''Two sources contradict the claim.''"
    by code_simp
  have n: "\<not> internal_record_found (st researched)" by code_simp
  have d: "llm rejecting_env (llm_calls researched) = Some ''REJECTED: the sources are vague''"
    by code_simp
  have s: "startswith (strip ''REJECTED: the sources are vague'') ''REJECTED''" by code_simp
  have r0: "revision_count (st researched) = 0" by code_simp
  have r: "revision_count (st researched) < 1" by (simp add: r0)
  note h = conjI [OF m conjI [OF l conjI [OF n d]]]
  note t = skeptic_node_decision [THEN conjunct2, THEN mp, OF h, THEN conjunct1, THEN mp,
      OF conjI [OF s r], THEN conjunct2]
  have a1: "is_verified (st (outcome_world (skeptic_node rejecting_env researched))) = False"
    by (rule t [THEN conjunct1])
  have a2: "revision_count (st (outcome_world (skeptic_node rejecting_env researched))) = 1"
    using t [THEN conjunct2, THEN conjunct1] by (simp add: r0)
  have a3: "next_node Skeptic (st (outcome_world (skeptic_node rejecting_env researched)))
     = Some Researcher"
    by (rule t [THEN conjunct2, THEN conjunct2])
  have m': "messages (st researched_again) \<noteq> []" by code_simp
  have l': "last (messages (st researched_again))
              = AIMessage ''Two sources contradict the claim.''"
    by code_simp
  have n': "\<not> internal_record_found (st researched_again)" by code_simp
  have d': "llm rejecting_env (llm_calls researched_again)
              = Some ''REJECTED: the sources are vague''"
    by code_simp
  have r1: "revision_count (st researched_again) = 1" by code_simp
  have j': "\<not> (startswith (strip ''REJECTED: the sources are vague'') ''REJECTED''
                \<and> revision_count (st researched_again) < 1)"
    by (simp add: r1)
  note h' = conjI [OF m' conjI [OF l' conjI [OF n' d']]]
  note t' = skeptic_node_decision [THEN conjunct2, THEN mp, OF h', THEN conjunct2, THEN mp,
      OF j', THEN conjunct2]
  have b1: "is_verified (st (outcome_world (skeptic_node rejecting_env researched_again))) = True"
    by (rule t' [THEN conjunct1])
  have b2: "revision_count (st (outcome_world (skeptic_node rejecting_env researched_again))) = 1"
    using t' [THEN conjunct2, THEN conjunct1] by (simp add: r1)
  have d'': "llm empty_report_env (llm_calls researched) = Some ''APPROVED''" by code_simp
  have j'': "\<not> (startswith (strip ''APPROVED'') ''REJECTED'' \<and> revision_count (st researched) < 1)"
    by code_simp
  note h'' = conjI [OF m conjI [OF l conjI [OF n d'']]]
  note t'' = skeptic_node_decision [THEN conjunct2, THEN mp, OF h'', THEN conjunct2, THEN mp,
      OF j'', THEN conjunct2]
  have c1: "is_verified (st (outcome_world (skeptic_node empty_report_env researched))) = True"
    by (rule t'' [THEN conjunct1])
  have c2: "revision_count (st (outcome_world (skeptic_node empty_report_env researched))) = 0"
    using t'' [THEN conjunct2, THEN conjunct1] by (simp add: r0)
  have c3: "next_node Skeptic (st (outcome_world (skeptic_node empty_report_env researched)))
     = Some Reporter"
    by (rule t'' [THEN conjunct2, THEN conjunct2])
  show ?thesis
    by (intro conjI p m l n d s r a1 a2 a3 d' r1 b1 b2 d'' c1 c2 c3)
qed

section \<open>The reporter\<close>

lemma log_source_frame:
  "domain_reputation (log_source env i t n v d) = domain_reputation d"
  "verification_history (log_source env i t n v d) = verification_history d"
  "history_seq (log_source env i t n v d) = history_seq d"
  by (simp_all add: log_source_def Let_def)

lemma log_sources_frame:
  "log_sources env s oi i v d = (r, d') \<Longrightarrow>
   domain_reputation d' = domain_reputation d \<and>
   verification_history d' = verification_history d"
  by (auto simp add: log_sources_def Let_def log_source_frame
      split: if_splits option.splits sum.splits)

lemma insert_history_Inr:
  "insert_history env c v role d = Inr (i, d') \<Longrightarrow>
   \<not> db_fault env HistoryInsert \<and>
   domain_reputation d' = domain_reputation d \<and>
   verification_history d' =
     verification_history d @ [new_history_row env (next_history_id d) c v role]"
  by (auto simp add: insert_history_def Let_def split: if_splits)

lemma insert_history_Inl:
  "insert_history env c v role d = Inl e \<Longrightarrow> db_fault env HistoryInsert"
  by (auto simp add: insert_history_def Let_def split: if_splits)

lemma persist_history_frame:
  assumes "persist_history env s oi c v d = (r, d')"
  shows "domain_reputation d' = domain_reputation d"
    and "verification_history d' =
           (if db_fault env HistoryInsert then verification_history d
            else verification_history d @
                   [new_history_row env (next_history_id d) c v (user_role s)])"
proof -
  show "domain_reputation d' = domain_reputation d"
  proof (cases "insert_history env c v (user_role s) d")
    case (Inl e)
    then show ?thesis using assms by (simp add: persist_history_def)
  next
    case (Inr p)
    obtain i d1 where p: "p = (i, d1)" by (cases p)
    obtain r2 d2 where l: "log_sources env s oi i v d1 = (r2, d2)"
      by (cases "log_sources env s oi i v d1")
    have "d' = d2"
      using assms Inr p l by (auto simp add: persist_history_def split: option.splits if_splits)
    then show ?thesis
      using insert_history_Inr [of env c v "user_role s" d i d1] log_sources_frame [OF l] Inr p
      by simp
  qed
  show "verification_history d' =
           (if db_fault env HistoryInsert then verification_history d
            else verification_history d @
                   [new_history_row env (next_history_id d) c v (user_role s)])"
  proof (cases "insert_history env c v (user_role s) d")
    case (Inl e)
    then show ?thesis
      using assms insert_history_Inl [OF Inl] by (simp add: persist_history_def)
  next
    case (Inr p)
    obtain i d1 where p: "p = (i, d1)" by (cases p)
    obtain r2 d2 where l: "log_sources env s oi i v d1 = (r2, d2)"
      by (cases "log_sources env s oi i v d1")
    have "d' = d2"
      using assms Inr p l by (auto simp add: persist_history_def split: option.splits if_splits)
    then show ?thesis
      using insert_history_Inr [of env c v "user_role s" d i d1] log_sources_frame [OF l] Inr p
      by simp
  qed
qed

lemma reputation_gate_closed:
  "\<not> gate_open s oi \<Longrightarrow> reputation_gate env s oi v c d = d"
  by (auto simp add: gate_open_def reputation_gate_def)

lemma reputation_gate_history:
  "verification_history (reputation_gate env s oi v c d) = verification_history d"
  "history_seq (reputation_gate env s oi v c d) = history_seq d"
  by (simp_all add: reputation_gate_def update_internal_db_history)

lemma next_history_id_gate:
  "next_history_id (reputation_gate env s oi v c d) = next_history_id d"
  by (simp add: next_history_id_def reputation_gate_history)

lemma reporter_node_ready:
  assumes "reporter_ready (st w)" and "llm env (llm_calls w) = Some report"
  shows "reporter_node env w =
     (case (if report \<noteq> []
            then persist_history env (st w) (message_text (hd (messages (st w))))
                   (the (claim_text (st w))) (marked_parse_verdict report)
                   (reputation_gate env (st w) (message_text (hd (messages (st w))))
                      (marked_parse_verdict report) (the (claim_text (st w))) (store w))
            else (None, reputation_gate env (st w) (message_text (hd (messages (st w))))
                      (marked_parse_verdict report) (the (claim_text (st w))) (store w))) of
        (Some e, d2) \<Rightarrow> Raised e (w\<lparr>llm_calls := Suc (llm_calls w), store := d2\<rparr>)
      | (None, d2) \<Rightarrow>
          Returned (w\<lparr>llm_calls := Suc (llm_calls w), store := d2,
                      st := (st w)\<lparr>messages := messages (st w) @ [AIMessage report]\<rparr>\<rparr>))"
  using assms
  by (auto simp add: reporter_node_def reporter_ready_def Let_def ainvoke_def parse_verdict_marked
      split: sum.splits option.splits prod.splits)

lemma reporter_node_reputation:
  "\<not> gate_open (st w) (message_text (hd (messages (st w)))) \<Longrightarrow>
   domain_reputation (store (outcome_world (reporter_node env w))) = domain_reputation (store w)"
  by (auto simp add: reporter_node_def Let_def ainvoke_def reputation_gate_closed
      split: sum.splits option.splits prod.splits if_splits dest: persist_history_frame(1))


lemma persist_history_result:
  "\<exists>r d'. persist_history env s oi c v d = (r, d')"
  by (cases "persist_history env s oi c v d") simp

lemma reporter_node_history:
  assumes "reporter_ready (st w)" and "claim_text (st w) = Some original_claim"
    and "llm env (llm_calls w) = Some report" and "report \<noteq> []"
    and "\<not> db_fault env HistoryInsert"
  shows "verification_history (store (outcome_world (reporter_node env w))) =
           verification_history (store w) @
             [new_history_row env (next_history_id (store w)) original_claim
                (marked_parse_verdict report) (user_role (st w))]"
proof -
  let ?oi = "message_text (hd (messages (st w)))"
  let ?v = "marked_parse_verdict report"
  let ?d1 = "reputation_gate env (st w) ?oi ?v original_claim (store w)"
  obtain r d2 where p: "persist_history env (st w) ?oi original_claim ?v ?d1 = (r, d2)"
    using persist_history_result by blast
  have h: "verification_history d2 =
             verification_history (store w) @
               [new_history_row env (next_history_id (store w)) original_claim ?v (user_role (st w))]"
    using persist_history_frame(2) [OF p] assms(5)
    by (simp add: reputation_gate_history next_history_id_gate)
  show ?thesis
    using assms(2,4) p h
    by (cases r) (simp_all add: reporter_node_ready [OF assms(1) assms(3)])
qed

lemma reporter_node_empty_report:
  assumes "reporter_ready (st w)" and "claim_text (st w) = Some original_claim"
    and "llm env (llm_calls w) = Some []"
  shows "returned (reporter_node env w)"
    and "verification_history (store (outcome_world (reporter_node env w))) =
           verification_history (store w)"
    and "source_logs (store (outcome_world (reporter_node env w))) = source_logs (store w)"
  using assms(2)
  by (simp_all add: reporter_node_ready [OF assms(1) assms(3)] reputation_gate_history
      reputation_gate_def update_internal_db_history)

lemma log_sources_returns:
  "input_type s = ''url'' \<longrightarrow> netloc env oi \<noteq> None \<Longrightarrow>
   fst (log_sources env s oi i v d) = None"
  by (auto simp add: log_sources_def Let_def split: option.splits)

lemma persist_history_returns:
  assumes "\<not> db_fault env HistoryInsert" and "\<not> db_fault env HistorySelect"
    and "input_type s = ''url'' \<longrightarrow> netloc env oi \<noteq> None"
  shows "fst (persist_history env s oi c v d) = None"
proof -
  let ?d1 = "d\<lparr>verification_history := verification_history d @
                  [new_history_row env (next_history_id d) c v (user_role s)],
               history_seq := next_history_id d\<rparr>"
  obtain r d2 where l: "log_sources env s oi (next_history_id d) v ?d1 = (r, d2)"
    by (cases "log_sources env s oi (next_history_id d) v ?d1")
  have n: "r = None"
    using log_sources_returns [OF assms(3), of "next_history_id d" v ?d1] l by simp
  show ?thesis
    using assms(1,2) l n by (simp add: persist_history_def insert_history_def Let_def)
qed

lemma reporter_node_returns:
  assumes "reporter_ready (st w)" and "claim_text (st w) = Some original_claim"
    and "llm env (llm_calls w) = Some report"
    and "\<not> db_fault env HistoryInsert" and "\<not> db_fault env HistorySelect"
    and "input_type (st w) = ''url'' \<longrightarrow> netloc env (message_text (hd (messages (st w)))) \<noteq> None"
  shows "returned (reporter_node env w)"
proof -
  let ?oi = "message_text (hd (messages (st w)))"
  let ?v = "marked_parse_verdict report"
  let ?d1 = "reputation_gate env (st w) ?oi ?v original_claim (store w)"
  have "fst (persist_history env (st w) ?oi original_claim ?v ?d1) = None"
    by (rule persist_history_returns [OF assms(4) assms(5) assms(6)])
  then show ?thesis
    using assms(2)
    by (cases "persist_history env (st w) ?oi original_claim ?v ?d1")
       (simp add: reporter_node_ready [OF assms(1) assms(3)])
qed

lemma skeptic_node_ready:
  assumes "skeptic_node env w = Returned w'" and "claim_text (st w) \<noteq> None"
  shows "reporter_ready (st w')"
proof -
  from assms(1) have m: "messages (st w) \<noteq> []"
    by (auto simp add: skeptic_node_def split: list.splits)
  from assms(1) m obtain research where c: "content (last (messages (st w))) = Inr research"
    by (cases "messages (st w)"; cases "content (last (messages (st w)))")
       (auto simp add: skeptic_node_def)
  from assms(1) m c obtain x where
    e: "messages (st w') = messages (st w) @ [x]" and k: "claim_text (st w') = claim_text (st w)"
    by (cases "messages (st w)")
       (auto simp add: skeptic_node_def Let_def ainvoke_def
        split: option.splits if_splits)
  have "(messages (st w) @ [x]) ! (length (messages (st w) @ [x]) - 2) = last (messages (st w))"
    using m by (simp add: nth_append last_conv_nth)
  moreover have "Suc 0 \<le> length (messages (st w))"
    using m by (cases "messages (st w)") simp_all
  ultimately show ?thesis
    using m c k assms(2) by (simp add: reporter_ready_def e)
qed

text \<open>
  Claim C6, as the specification words it: every run on a URL that reaches the reporter with a
  role other than admin produces a history entry. In the run below the provider's report is
  the empty text; the reporter guards the insert with \<^verbatim>\<open>if final_report_content:\<close>, so the
  run ends well and \<^verbatim>\<open>verification_history\<close> is still empty.
\<close>

theorem reporter_node_no_entry_counterexample:
  "finished (snd (satyamitra_brain empty_report_env
      (initial_state ''https://www.example.com/story'' ''url'' None ''standard'') empty_db)) \<and>
   map fst (fst (satyamitra_brain empty_report_env
      (initial_state ''https://www.example.com/story'' ''url'' None ''standard'') empty_db))
     = [Start, PreProcessor, DbAnalyst, Researcher, Skeptic, Reporter] \<and>
   verification_history (store (result_world (snd (satyamitra_brain empty_report_env
      (initial_state ''https://www.example.com/story'' ''url'' None ''standard'') empty_db))))
     = []"
  by code_simp

text \<open>
  Claim C6, amended: whenever the reporter runs with a role other than admin, the reputation
  table is left as it was, whatever the outcome; the reporter changes the table only when the
  type is \<^verbatim>\<open>url\<close> and the role is \<^verbatim>\<open>admin\<close> and the original input starts with
  \<^verbatim>\<open>http://\<close> or \<^verbatim>\<open>https://\<close>; it produces a history entry whenever it has its inputs (a
  message with content before the last one, and a claim), the provider gives a report that is
  not empty and the insert does not fail; and where the gate is closed the write is skipped
  without an error: with its inputs, an answering provider, a working store and a URL that
  parses, the reporter returns.
\<close>

theorem reporter_node_write_policy:
  "(user_role (st w) \<noteq> ''admin'' \<longrightarrow>
      domain_reputation (store (outcome_world (reporter_node env w)))
        = domain_reputation (store w)) \<and>
   (domain_reputation (store (outcome_world (reporter_node env w)))
      \<noteq> domain_reputation (store w) \<longrightarrow>
      gate_open (st w) (message_text (hd (messages (st w))))) \<and>
   (reporter_ready (st w) \<and> claim_text (st w) = Some original_claim \<and>
    llm env (llm_calls w) = Some report \<and> report \<noteq> [] \<and> \<not> db_fault env HistoryInsert \<longrightarrow>
      verification_history (store (outcome_world (reporter_node env w))) =
        verification_history (store w) @
          [new_history_row env (next_history_id (store w)) original_claim
             (marked_parse_verdict report) (user_role (st w))]) \<and>
   (\<not> gate_open (st w) (message_text (hd (messages (st w)))) \<and>
    reporter_ready (st w) \<and> claim_text (st w) = Some original_claim \<and>
    llm env (llm_calls w) = Some report \<and>
    \<not> db_fault env HistoryInsert \<and> \<not> db_fault env HistorySelect \<and>
    (input_type (st w) = ''url'' \<longrightarrow> netloc env (message_text (hd (messages (st w)))) \<noteq> None) \<longrightarrow>
      returned (reporter_node env w))"
proof (intro conjI impI)
  assume "user_role (st w) \<noteq> ''admin''"
  then have "\<not> gate_open (st w) (message_text (hd (messages (st w))))"
    by (simp add: gate_open_def)
  then show "domain_reputation (store (outcome_world (reporter_node env w)))
        = domain_reputation (store w)"
    by (rule reporter_node_reputation)
next
  assume a: "domain_reputation (store (outcome_world (reporter_node env w)))
      \<noteq> domain_reputation (store w)"
  show "gate_open (st w) (message_text (hd (messages (st w))))"
  proof (rule ccontr)
    assume "\<not> gate_open (st w) (message_text (hd (messages (st w))))"
    then have "domain_reputation (store (outcome_world (reporter_node env w)))
        = domain_reputation (store w)"
      by (rule reporter_node_reputation)
    with a show False by simp
  qed
next
  assume "reporter_ready (st w) \<and> claim_text (st w) = Some original_claim \<and>
    llm env (llm_calls w) = Some report \<and> report \<noteq> [] \<and> \<not> db_fault env HistoryInsert"
  then show "verification_history (store (outcome_world (reporter_node env w))) =
        verification_history (store w) @
          [new_history_row env (next_history_id (store w)) original_claim
             (marked_parse_verdict report) (user_role (st w))]"
    using reporter_node_history [of w original_claim env report] by simp
next
  assume "\<not> gate_open (st w) (message_text (hd (messages (st w)))) \<and>
    reporter_ready (st w) \<and> claim_text (st w) = Some original_claim \<and>
    llm env (llm_calls w) = Some report \<and>
    \<not> db_fault env HistoryInsert \<and> \<not> db_fault env HistorySelect \<and>
    (input_type (st w) = ''url'' \<longrightarrow> netloc env (message_text (hd (messages (st w)))) \<noteq> None)"
  then show "returned (reporter_node env w)"
    using reporter_node_returns [of w original_claim env report] by simp
qed

theorem reporter_node_write_policy_witness:
  "user_role (st (before_last url_run_standard)) \<noteq> ''admin'' \<and>
   domain_reputation
     (store (outcome_world (reporter_node approving_env (before_last url_run_standard))))
     ''example.com'' = None \<and>
   domain_reputation
     (store (outcome_world (reporter_node approving_env (before_last url_run_admin))))
     ''example.com'' = Some (''PROPAGANDA'', 95) \<and>
   domain_reputation (store (before_last url_run_admin)) ''example.com'' = None \<and>
   gate_open (st (before_last url_run_admin))
     (message_text (hd (messages (st (before_last url_run_admin))))) \<and>
   reporter_ready (st (before_last url_run_standard)) \<and>
   claim_text (st (before_last url_run_standard)) = Some ''https://www.example.com/story'' \<and>
   llm approving_env (llm_calls (before_last url_run_standard))
     = Some ''**Verdict:** FALSE ---DETAILED_REPORT_START--- details'' \<and>
   \<not> db_fault approving_env HistoryInsert \<and> \<not> db_fault approving_env HistorySelect \<and>
   verification_history
     (store (outcome_world (reporter_node approving_env (before_last url_run_standard))))
     = [\<lparr>h_id = 1, h_user_id = ''anonymous'', h_claim_text = ''https://www.example.com/story'',
         h_verdict = ''FALSE'', h_origin_city = ''Mumbai'', h_origin_country = ''India'',
         h_user_role = ''standard'', h_timestamp = ''2025-01-01 00:00:00''\<rparr>] \<and>
   returned (reporter_node approving_env (before_last url_run_standard))"
proof -
  let ?ws = "before_last url_run_standard"
  let ?wa = "before_last url_run_admin"
  let ?report = "''**Verdict:** FALSE ---DETAILED_REPORT_START--- details''"
  let ?url = "''https://www.example.com/story''"
  note t = reporter_node_write_policy [of ?ws approving_env ?url ?report]
  note ta = reporter_node_write_policy [of ?wa approving_env ?url ?report]
  have h1: "user_role (st ?ws) \<noteq> ''admin''" by code_simp
  have n0: "domain_reputation (store ?ws) ''example.com'' = None" by code_simp
  have c1: "domain_reputation (store (outcome_world (reporter_node approving_env ?ws)))
              ''example.com'' = None"
    using t [THEN conjunct1, THEN mp, OF h1] n0 by simp
  have a1: "domain_reputation (store (outcome_world (reporter_node approving_env ?wa)))
              ''example.com'' = Some (''PROPAGANDA'', 95)"
    by code_simp
  have a0: "domain_reputation (store ?wa) ''example.com'' = None" by code_simp
  have h2: "domain_reputation (store (outcome_world (reporter_node approving_env ?wa)))
              \<noteq> domain_reputation (store ?wa)"
  proof
    assume "domain_reputation (store (outcome_world (reporter_node approving_env ?wa)))
              = domain_reputation (store ?wa)"
    then have "domain_reputation (store (outcome_world (reporter_node approving_env ?wa)))
                 ''example.com'' = domain_reputation (store ?wa) ''example.com''"
      by simp
    then show False by (simp add: a1 a0)
  qed
  have c2: "gate_open (st ?wa) (message_text (hd (messages (st ?wa))))"
    by (rule ta [THEN conjunct2, THEN conjunct1, THEN mp, OF h2])
  have r: "reporter_ready (st ?ws)" by code_simp
  have k: "claim_text (st ?ws) = Some ?url" by code_simp
  have l: "llm approving_env (llm_calls ?ws) = Some ?report" by code_simp
  have ne: "?report \<noteq> []" by simp
  have f1: "\<not> db_fault approving_env HistoryInsert" by code_simp
  have f2: "\<not> db_fault approving_env HistorySelect" by code_simp
  have v0: "verification_history (store ?ws) = []" by code_simp
  have row: "new_history_row approving_env (next_history_id (store ?ws)) ?url
               (marked_parse_verdict ?report) (user_role (st ?ws))
     = \<lparr>h_id = 1, h_user_id = ''anonymous'', h_claim_text = ''https://www.example.com/story'',
         h_verdict = ''FALSE'', h_origin_city = ''Mumbai'', h_origin_country = ''India'',
         h_user_role = ''standard'', h_timestamp = ''2025-01-01 00:00:00''\<rparr>"
    by code_simp
  have c3: "verification_history (store (outcome_world (reporter_node approving_env ?ws)))
     = [\<lparr>h_id = 1, h_user_id = ''anonymous'', h_claim_text = ''https://www.example.com/story'',
         h_verdict = ''FALSE'', h_origin_city = ''Mumbai'', h_origin_country = ''India'',
         h_user_role = ''standard'', h_timestamp = ''2025-01-01 00:00:00''\<rparr>]"
    using t [THEN conjunct2, THEN conjunct2, THEN conjunct1, THEN mp,
             OF conjI [OF r conjI [OF k conjI [OF l conjI [OF ne f1]]]]]
    unfolding v0 row by simp
  have g: "\<not> gate_open (st ?ws) (message_text (hd (messages (st ?ws))))" by code_simp
  have nl: "netloc approving_env (message_text (hd (messages (st ?ws)))) \<noteq> None" by code_simp
  have u: "input_type (st ?ws) = ''url'' \<longrightarrow>
             netloc approving_env (message_text (hd (messages (st ?ws)))) \<noteq> None"
    using nl by simp
  have c4: "returned (reporter_node approving_env ?ws)"
    by (rule t [THEN conjunct2, THEN conjunct2, THEN conjunct2, THEN mp,
             OF conjI [OF g conjI [OF r conjI [OF k conjI [OF l conjI [OF f1 conjI [OF f2 u]]]]]]])
  show ?thesis
    by (intro conjI h1 c1 a1 a0 c2 r k l f1 f2 c3 c4)
qed

text \<open>
  Claim C7, as the specification words it: every run that reaches the reporter appends exactly
  one history entry, for every role and every type. In the run below, on a text with the role
  \<^verbatim>\<open>standard\<close>, the provider's report is the empty text: the guard
  \<^verbatim>\<open>if final_report_content:\<close> skips the insert, the run ends well and no entry was appended.
\<close>

theorem reporter_node_empty_report_counterexample:
  "finished (snd (satyamitra_brain empty_report_env
      (initial_state ''The moon landing was faked'' ''text'' None ''standard'') empty_db)) \<and>
   map fst (fst (satyamitra_brain empty_report_env
      (initial_state ''The moon landing was faked'' ''text'' None ''standard'') empty_db))
     = [Start, PreProcessor, Researcher, Skeptic, Reporter] \<and>
   verification_history (store (result_world (snd (satyamitra_brain empty_report_env
      (initial_state ''The moon landing was faked'' ''text'' None ''standard'') empty_db))))
     = []"
  by code_simp

text \<open>
  Claim C7, amended: the skeptic, when it returns on a state that has a claim, leaves the
  reporter its inputs (a message with content before the last one, and the claim). A reporter
  that has its inputs and gets the provider's report appends exactly one history entry, with
  the claim, the parsed verdict and the role, when the report is not empty and the insert does
  not fail, for every role and every type and whatever happens after the insert; with an
  empty report it returns and appends no entry.
\<close>

theorem reporter_node_history_entry:
  "(returned (skeptic_node env w0) \<and> claim_text (st w0) \<noteq> None \<longrightarrow>
      reporter_ready (st (outcome_world (skeptic_node env w0)))) \<and>
   (reporter_ready (st w) \<and> claim_text (st w) = Some original_claim \<and>
    llm env (llm_calls w) = Some report \<longrightarrow>
      (report \<noteq> [] \<and> \<not> db_fault env HistoryInsert \<longrightarrow>
         verification_history (store (outcome_world (reporter_node env w))) =
           verification_history (store w) @
             [new_history_row env (next_history_id (store w)) original_claim
                (marked_parse_verdict report) (user_role (st w))]) \<and>
      (report = [] \<longrightarrow>
         returned (reporter_node env w) \<and>
         verification_history (store (outcome_world (reporter_node env w))) =
           verification_history (store w)))"
proof (intro conjI impI)
  assume a: "returned (skeptic_node env w0) \<and> claim_text (st w0) \<noteq> None"
  then have r: "skeptic_node env w0 = Returned (outcome_world (skeptic_node env w0))"
    by (simp add: returned_outcome_world)
  have c: "claim_text (st w0) \<noteq> None" using a by simp
  show "reporter_ready (st (outcome_world (skeptic_node env w0)))"
    by (rule skeptic_node_ready [OF r c])
next
  assume "reporter_ready (st w) \<and> claim_text (st w) = Some original_claim \<and>
    llm env (llm_calls w) = Some report"
    and "report \<noteq> [] \<and> \<not> db_fault env HistoryInsert"
  then show "verification_history (store (outcome_world (reporter_node env w))) =
           verification_history (store w) @
             [new_history_row env (next_history_id (store w)) original_claim
                (marked_parse_verdict report) (user_role (st w))]"
    using reporter_node_history [of w original_claim env report] by simp
next
  assume a: "reporter_ready (st w) \<and> claim_text (st w) = Some original_claim \<and>
    llm env (llm_calls w) = Some report"
    and e: "report = []"
  show "returned (reporter_node env w)"
    using a e reporter_node_empty_report(1) [of w original_claim env] by simp
  show "verification_history (store (outcome_world (reporter_node env w))) =
           verification_history (store w)"
    using a e reporter_node_empty_report(2) [of w original_claim env] by simp
qed

theorem reporter_node_history_entry_witness:
  "returned (skeptic_node approving_env researched) \<and>
   claim_text (st researched) \<noteq> None \<and>
   reporter_ready (st (outcome_world (skeptic_node approving_env researched))) \<and>
   reporter_ready (st (before_last text_run_standard)) \<and>
   claim_text (st (before_last text_run_standard)) = Some ''The moon landing was faked'' \<and>
   llm approving_env (llm_calls (before_last text_run_standard))
     = Some ''**Verdict:** FALSE ---DETAILED_REPORT_START--- details'' \<and>
   \<not> db_fault approving_env HistoryInsert \<and>
   verification_history
     (store (outcome_world (reporter_node approving_env (before_last text_run_standard))))
     = [\<lparr>h_id = 1, h_user_id = ''anonymous'', h_claim_text = ''The moon landing was faked'',
         h_verdict = ''FALSE'', h_origin_city = ''Mumbai'', h_origin_country = ''India'',
         h_user_role = ''standard'', h_timestamp = ''2025-01-01 00:00:00''\<rparr>] \<and>
   llm empty_report_env (llm_calls (before_last text_run_standard)) = Some [] \<and>
   returned (reporter_node empty_report_env (before_last text_run_standard)) \<and>
   verification_history
     (store (outcome_world (reporter_node empty_report_env (before_last text_run_standard))))
     = []"
proof -
  let ?w = "before_last text_run_standard"
  let ?report = "''**Verdict:** FALSE ---DETAILED_REPORT_START--- details''"
  let ?claim = "''The moon landing was faked''"
  have s1: "returned (skeptic_node approving_env researched)" by code_simp
  have s2: "claim_text (st researched) \<noteq> None" by code_simp
  have s3: "reporter_ready (st (outcome_world (skeptic_node approving_env researched)))"
    by (rule reporter_node_history_entry [THEN conjunct1, THEN mp, OF conjI [OF s1 s2]])
  have r: "reporter_ready (st ?w)" by code_simp
  have k: "claim_text (st ?w) = Some ?claim" by code_simp
  have l: "llm approving_env (llm_calls ?w) = Some ?report" by code_simp
  have ne: "?report \<noteq> []" by simp
  have f1: "\<not> db_fault approving_env HistoryInsert" by code_simp
  have v0: "verification_history (store ?w) = []" by code_simp
  have row: "new_history_row approving_env (next_history_id (store ?w)) ?claim
               (marked_parse_verdict ?report) (user_role (st ?w))
     = \<lparr>h_id = 1, h_user_id = ''anonymous'', h_claim_text = ''The moon landing was faked'',
         h_verdict = ''FALSE'', h_origin_city = ''Mumbai'', h_origin_country = ''India'',
         h_user_role = ''standard'', h_timestamp = ''2025-01-01 00:00:00''\<rparr>"
    by code_simp
  note t = reporter_node_history_entry [of approving_env _ ?w ?claim ?report, THEN conjunct2,
      THEN mp, OF conjI [OF r conjI [OF k l]]]
  have c1: "verification_history (store (outcome_world (reporter_node approving_env ?w)))
     = [\<lparr>h_id = 1, h_user_id = ''anonymous'', h_claim_text = ''The moon landing was faked'',
         h_verdict = ''FALSE'', h_origin_city = ''Mumbai'', h_origin_country = ''India'',
         h_user_role = ''standard'', h_timestamp = ''2025-01-01 00:00:00''\<rparr>]"
    using t [THEN conjunct1, THEN mp, OF conjI [OF ne f1]]
    unfolding v0 row by simp
  have l': "llm empty_report_env (llm_calls ?w) = Some []" by code_simp
  note t' = reporter_node_history_entry [of empty_report_env _ ?w ?claim "[]", THEN conjunct2,
      THEN mp, OF conjI [OF r conjI [OF k l']], THEN conjunct2, THEN mp, OF refl]
  have c2: "returned (reporter_node empty_report_env ?w)"
    by (rule t' [THEN conjunct1])
  have c3: "verification_history (store (outcome_world (reporter_node empty_report_env ?w))) = []"
    using t' [THEN conjunct2] unfolding v0 .
  show ?thesis
    by (intro conjI s1 s2 s3 r k l f1 c1 l' c2 c3)
qed

section \<open>Runs of the graph\<close>

lemma persist_history_error:
  "persist_history env s oi c v d = (Some e, d') \<Longrightarrow> e \<noteq> GraphRecursionError"
  by (auto simp add: persist_history_def insert_history_def log_sources_def Let_def
      split: sum.splits prod.splits option.splits if_splits)

lemma content_Inl: "content m = Inl e \<Longrightarrow> e = AttributeError"
  by (cases m) auto

lemma start_node_step:
  "start_node env w = Returned w' \<Longrightarrow> revision_count (st w') = revision_count (st w)"
  "start_node env w \<noteq> Raised e w'"
  by (auto simp add: start_node_def)

lemma pre_processor_node_step:
  "pre_processor_node env w = Returned w' \<Longrightarrow> revision_count (st w') = revision_count (st w)"
  "pre_processor_node env w = Raised e w' \<Longrightarrow> st w' = st w \<and> e \<noteq> GraphRecursionError"
  by (auto simp add: pre_processor_node_def pre_processor_result_def ainvoke_def Let_def
      split: list.splits option.splits if_splits)

lemma db_analyst_node_step:
  "db_analyst_node env w = Returned w' \<Longrightarrow> revision_count (st w') = revision_count (st w)"
  "db_analyst_node env w = Raised e w' \<Longrightarrow> st w' = st w \<and> e \<noteq> GraphRecursionError"
  by (auto simp add: db_analyst_node_def Let_def split: list.splits option.splits if_splits)

lemma researcher_node_step:
  "researcher_node env w = Returned w' \<Longrightarrow> revision_count (st w') = revision_count (st w)"
  "researcher_node env w = Raised e w' \<Longrightarrow> st w' = st w \<and> e \<noteq> GraphRecursionError"
  by (auto simp add: researcher_node_def researcher_summary_def ainvoke_def invoke_search_def
      split: option.splits if_splits)

lemma skeptic_node_step:
  "skeptic_node env w = Returned w' \<Longrightarrow>
     (is_verified (st w') \<and> revision_count (st w') = revision_count (st w)) \<or>
     (\<not> is_verified (st w') \<and> revision_count (st w) < 1 \<and>
      revision_count (st w') = revision_count (st w) + 1)"
  "skeptic_node env w = Raised e w' \<Longrightarrow> st w' = st w \<and> e \<noteq> GraphRecursionError"
  by (auto simp add: skeptic_node_def ainvoke_def Let_def
      split: list.splits sum.splits option.splits if_splits dest: content_Inl)

lemma reporter_node_step:
  "reporter_node env w = Returned w' \<Longrightarrow> revision_count (st w') = revision_count (st w)"
  "reporter_node env w = Raised e w' \<Longrightarrow> st w' = st w \<and> e \<noteq> GraphRecursionError"
  by (auto simp add: reporter_node_def ainvoke_def Let_def parse_verdict_marked
      split: sum.splits option.splits if_splits prod.splits
      dest: persist_history_error content_Inl)


lemma exec_node_Raised:
  "exec_node env n w = Raised e w' \<Longrightarrow> st w' = st w \<and> e \<noteq> GraphRecursionError"
  by (cases n)
     (auto simp add: start_node_step(2)
        dest: pre_processor_node_step(2) db_analyst_node_step(2)
          researcher_node_step(2) skeptic_node_step(2) reporter_node_step(2))

lemma exec_node_revision_count:
  "exec_node env n w = Returned w' \<Longrightarrow> n \<noteq> Skeptic \<Longrightarrow>
   revision_count (st w') = revision_count (st w)"
  by (cases n)
     (auto dest: start_node_step(1) pre_processor_node_step(1) db_analyst_node_step(1)
        researcher_node_step(1) reporter_node_step(1))

lemma exec_node_bounds:
  assumes "exec_node env n w = Returned w'"
    and "0 \<le> revision_count (st w)" and "revision_count (st w) \<le> 1"
  shows "0 \<le> revision_count (st w') \<and> revision_count (st w') \<le> 1"
proof (cases "n = Skeptic")
  case True
  then have "skeptic_node env w = Returned w'" using assms(1) by simp
  from skeptic_node_step(1) [OF this] show ?thesis using assms(2,3) by auto
next
  case False
  from exec_node_revision_count [OF assms(1) False] show ?thesis using assms(2,3) by simp
qed

lemma run_graph_revision_bounded:
  "0 \<le> revision_count (st w) \<Longrightarrow> revision_count (st w) \<le> 1 \<Longrightarrow>
   revision_bounded (fst (run_graph k env n w))"
proof (induction k arbitrary: n w)
  case 0
  show ?case by (simp add: revision_bounded_def)
next
  case (Suc k)
  show ?case
  proof (cases "exec_node env n w")
    case (Raised e w')
    then have "st w' = st w" using exec_node_Raised by blast
    then show ?thesis using Raised Suc.prems by (simp add: revision_bounded_def)
  next
    case (Returned w')
    note b = exec_node_bounds [OF Returned Suc.prems]
    show ?thesis
    proof (cases "next_node n (st w')")
      case None
      then show ?thesis using Returned b by (simp add: revision_bounded_def)
    next
      case (Some n')
      have "revision_bounded (fst (run_graph k env n' w'))"
        using b by (intro Suc.IH) simp_all
      then show ?thesis
        using Returned Some b
        by (cases "run_graph k env n' w'") (simp add: revision_bounded_def)
    qed
  qed
qed

lemma run_graph_step:
  assumes "\<And>w'. exec_node env n w = Returned w' \<Longrightarrow>
             next_node n (st w') = None \<or>
             (\<exists>n'. next_node n (st w') = Some n' \<and>
                   researcher_runs (fst (run_graph k env n' w')) \<le> c \<and>
                   result_error (snd (run_graph k env n' w')) \<noteq> Some GraphRecursionError)"
  shows "researcher_runs (fst (run_graph (Suc k) env n w))
           \<le> c + (if n = Researcher then 1 else 0) \<and>
         result_error (snd (run_graph (Suc k) env n w)) \<noteq> Some GraphRecursionError"
proof (cases "exec_node env n w")
  case (Raised e w')
  then have "e \<noteq> GraphRecursionError" using exec_node_Raised by blast
  then show ?thesis using Raised by (simp add: researcher_runs_def)
next
  case (Returned w')
  from assms [OF Returned] show ?thesis
  proof
    assume "next_node n (st w') = None"
    then show ?thesis using Returned by (simp add: researcher_runs_def)
  next
    assume "\<exists>n'. next_node n (st w') = Some n' \<and>
                   researcher_runs (fst (run_graph k env n' w')) \<le> c \<and>
                   result_error (snd (run_graph k env n' w')) \<noteq> Some GraphRecursionError"
    then obtain n' where n: "next_node n (st w') = Some n'"
      and r: "researcher_runs (fst (run_graph k env n' w')) \<le> c"
      and e: "result_error (snd (run_graph k env n' w')) \<noteq> Some GraphRecursionError"
      by blast
    show ?thesis
      using Returned n r e
      by (cases "run_graph k env n' w'") (simp add: researcher_runs_def)
  qed
qed

lemma run_graph_reporter:
  "researcher_runs (fst (run_graph (Suc k) env Reporter w)) \<le> 0 \<and>
   result_error (snd (run_graph (Suc k) env Reporter w)) \<noteq> Some GraphRecursionError"
  using run_graph_step [of env Reporter w k 0] by simp

lemma run_graph_skeptic_last:
  assumes "1 \<le> revision_count (st w)"
  shows "researcher_runs (fst (run_graph (Suc (Suc k)) env Skeptic w)) \<le> 0 \<and>
         result_error (snd (run_graph (Suc (Suc k)) env Skeptic w)) \<noteq> Some GraphRecursionError"
proof -
  have "next_node Skeptic (st w') = None \<or>
        (\<exists>n'. next_node Skeptic (st w') = Some n' \<and>
              researcher_runs (fst (run_graph (Suc k) env n' w')) \<le> 0 \<and>
              result_error (snd (run_graph (Suc k) env n' w')) \<noteq> Some GraphRecursionError)"
    if "exec_node env Skeptic w = Returned w'" for w'
  proof -
    from that have "skeptic_node env w = Returned w'" by simp
    from skeptic_node_step(1) [OF this] assms have "is_verified (st w')" by auto
    then show ?thesis using run_graph_reporter [of k env w'] by simp
  qed
  from run_graph_step [of env Skeptic w "Suc k" 0, OF this] show ?thesis by simp
qed

lemma run_graph_researcher_last:
  assumes "1 \<le> revision_count (st w)"
  shows "researcher_runs (fst (run_graph (Suc (Suc (Suc k))) env Researcher w)) \<le> 1 \<and>
         result_error (snd (run_graph (Suc (Suc (Suc k))) env Researcher w))
           \<noteq> Some GraphRecursionError"
proof -
  have "next_node Researcher (st w') = None \<or>
        (\<exists>n'. next_node Researcher (st w') = Some n' \<and>
              researcher_runs (fst (run_graph (Suc (Suc k)) env n' w')) \<le> 0 \<and>
              result_error (snd (run_graph (Suc (Suc k)) env n' w')) \<noteq> Some GraphRecursionError)"
    if "exec_node env Researcher w = Returned w'" for w'
  proof -
    from that have "researcher_node env w = Returned w'" by simp
    from researcher_node_step(1) [OF this] assms have "1 \<le> revision_count (st w')" by simp
    then show ?thesis using run_graph_skeptic_last [of w' k env] by simp
  qed
  from run_graph_step [of env Researcher w "Suc (Suc k)" 0, OF this] show ?thesis by simp
qed

lemma run_graph_skeptic_first:
  assumes "0 \<le> revision_count (st w)"
  shows "researcher_runs (fst (run_graph (Suc (Suc (Suc (Suc k)))) env Skeptic w)) \<le> 1 \<and>
         result_error (snd (run_graph (Suc (Suc (Suc (Suc k)))) env Skeptic w))
           \<noteq> Some GraphRecursionError"
proof -
  have "next_node Skeptic (st w') = None \<or>
        (\<exists>n'. next_node Skeptic (st w') = Some n' \<and>
              researcher_runs (fst (run_graph (Suc (Suc (Suc k))) env n' w')) \<le> 1 \<and>
              result_error (snd (run_graph (Suc (Suc (Suc k))) env n' w'))
                \<noteq> Some GraphRecursionError)"
    if "exec_node env Skeptic w = Returned w'" for w'
  proof -
    from that have s: "skeptic_node env w = Returned w'" by simp
    show ?thesis
    proof (cases "is_verified (st w')")
      case True
      then show ?thesis using run_graph_reporter [of "Suc (Suc k)" env w'] by simp
    next
      case False
      with skeptic_node_step(1) [OF s] assms have "1 \<le> revision_count (st w')" by auto
      then show ?thesis using False run_graph_researcher_last [of w' k env] by simp
    qed
  qed
  from run_graph_step [of env Skeptic w "Suc (Suc (Suc k))" 1, OF this] show ?thesis by simp
qed

lemma run_graph_researcher_first:
  assumes "0 \<le> revision_count (st w)"
  shows "researcher_runs (fst (run_graph (Suc (Suc (Suc (Suc (Suc k))))) env Researcher w)) \<le> 2 \<and>
         result_error (snd (run_graph (Suc (Suc (Suc (Suc (Suc k))))) env Researcher w))
           \<noteq> Some GraphRecursionError"
proof -
  have "next_node Researcher (st w') = None \<or>
        (\<exists>n'. next_node Researcher (st w') = Some n' \<and>
              researcher_runs (fst (run_graph (Suc (Suc (Suc (Suc k)))) env n' w')) \<le> 1 \<and>
              result_error (snd (run_graph (Suc (Suc (Suc (Suc k)))) env n' w'))
                \<noteq> Some GraphRecursionError)"
    if "exec_node env Researcher w = Returned w'" for w'
  proof -
    from that have "researcher_node env w = Returned w'" by simp
    from researcher_node_step(1) [OF this] assms have "0 \<le> revision_count (st w')" by simp
    then show ?thesis using run_graph_skeptic_first [of w' k env] by simp
  qed
  from run_graph_step [of env Researcher w "Suc (Suc (Suc (Suc k)))" 1, OF this]
  show ?thesis by simp
qed

lemma run_graph_db_analyst:
  assumes "0 \<le> revision_count (st w)"
  shows "researcher_runs (fst (run_graph (Suc (Suc (Suc (Suc (Suc (Suc k)))))) env DbAnalyst w))
           \<le> 2 \<and>
         result_error (snd (run_graph (Suc (Suc (Suc (Suc (Suc (Suc k)))))) env DbAnalyst w))
           \<noteq> Some GraphRecursionError"
proof -
  have "next_node DbAnalyst (st w') = None \<or>
        (\<exists>n'. next_node DbAnalyst (st w') = Some n' \<and>
              researcher_runs (fst (run_graph (Suc (Suc (Suc (Suc (Suc k))))) env n' w')) \<le> 2 \<and>
              result_error (snd (run_graph (Suc (Suc (Suc (Suc (Suc k))))) env n' w'))
                \<noteq> Some GraphRecursionError)"
    if "exec_node env DbAnalyst w = Returned w'" for w'
  proof -
    from that have "db_analyst_node env w = Returned w'" by simp
    from db_analyst_node_step(1) [OF this] assms have r: "0 \<le> revision_count (st w')" by simp
    show ?thesis
    proof (cases "internal_record_found (st w')")
      case True
      then show ?thesis
        using run_graph_reporter [of "Suc (Suc (Suc (Suc k)))" env w']
        by (simp add: router_after_db_def)
    next
      case False
      then show ?thesis
        using run_graph_researcher_first [OF r, of k env] by (simp add: router_after_db_def)
    qed
  qed
  from run_graph_step [of env DbAnalyst w "Suc (Suc (Suc (Suc (Suc k))))" 2, OF this]
  show ?thesis by simp
qed

lemma run_graph_pre_processor:
  assumes "0 \<le> revision_count (st w)"
  shows "researcher_runs
           (fst (run_graph (Suc (Suc (Suc (Suc (Suc (Suc (Suc k))))))) env PreProcessor w)) \<le> 2 \<and>
         result_error
           (snd (run_graph (Suc (Suc (Suc (Suc (Suc (Suc (Suc k))))))) env PreProcessor w))
           \<noteq> Some GraphRecursionError"
proof -
  have "next_node PreProcessor (st w') = None \<or>
        (\<exists>n'. next_node PreProcessor (st w') = Some n' \<and>
              researcher_runs (fst (run_graph (Suc (Suc (Suc (Suc (Suc (Suc k)))))) env n' w'))
                \<le> 2 \<and>
              result_error (snd (run_graph (Suc (Suc (Suc (Suc (Suc (Suc k)))))) env n' w'))
                \<noteq> Some GraphRecursionError)"
    if "exec_node env PreProcessor w = Returned w'" for w'
  proof -
    from that have "pre_processor_node env w = Returned w'" by simp
    from pre_processor_node_step(1) [OF this] assms have r: "0 \<le> revision_count (st w')"
      by simp
    show ?thesis
    proof (cases "input_type (st w') = ''url''")
      case True
      then show ?thesis
        using run_graph_db_analyst [OF r, of k env] by (simp add: router_to_db_def)
    next
      case False
      then show ?thesis
        using run_graph_researcher_first [OF r, of "Suc k" env] by (simp add: router_to_db_def)
    qed
  qed
  from run_graph_step [of env PreProcessor w "Suc (Suc (Suc (Suc (Suc (Suc k)))))" 2, OF this]
  show ?thesis by simp
qed

lemma run_graph_start:
  assumes "0 \<le> revision_count (st w)"
  shows "researcher_runs
           (fst (run_graph (Suc (Suc (Suc (Suc (Suc (Suc (Suc (Suc k)))))))) env Start w)) \<le> 2 \<and>
         result_error
           (snd (run_graph (Suc (Suc (Suc (Suc (Suc (Suc (Suc (Suc k)))))))) env Start w))
           \<noteq> Some GraphRecursionError"
proof -
  have "next_node Start (st w') = None \<or>
        (\<exists>n'. next_node Start (st w') = Some n' \<and>
              researcher_runs
                (fst (run_graph (Suc (Suc (Suc (Suc (Suc (Suc (Suc k))))))) env n' w')) \<le> 2 \<and>
              result_error
                (snd (run_graph (Suc (Suc (Suc (Suc (Suc (Suc (Suc k))))))) env n' w'))
                \<noteq> Some GraphRecursionError)"
    if "exec_node env Start w = Returned w'" for w'
  proof -
    from that have "start_node env w = Returned w'" by simp
    from start_node_step(1) [OF this] assms have r: "0 \<le> revision_count (st w')" by simp
    show ?thesis
      using run_graph_pre_processor [OF r, of k env] by simp
  qed
  from run_graph_step [of env Start w "Suc (Suc (Suc (Suc (Suc (Suc (Suc k))))))" 2, OF this]
  show ?thesis by simp
qed

lemma recursion_limit_Suc:
  "recursion_limit = Suc (Suc (Suc (Suc (Suc (Suc (Suc (Suc 17)))))))"
  by (simp add: recursion_limit_def)

text \<open>
  Claim C2: in every run the server starts, on every input and whatever the providers and
  the store answer, \<^verbatim>\<open>revision_count\<close> starts at 0 and is 0 or 1 in the state every node
  leaves; the researcher runs at most twice, that is, there is at most one retry; and the
  run ends within the 25 steps the graph may take.
\<close>

theorem revision_count_at_most_one:
  "revision_count (initial_state input it img role) = 0 \<and>
   revision_bounded (fst (satyamitra_brain env (initial_state input it img role) d)) \<and>
   researcher_runs (fst (satyamitra_brain env (initial_state input it img role) d)) \<le> 2 \<and>
   result_error (snd (satyamitra_brain env (initial_state input it img role) d))
     \<noteq> Some GraphRecursionError"
proof (intro conjI)
  show z: "revision_count (initial_state input it img role) = 0"
    by (simp add: initial_state_def)
  have r: "0 \<le> revision_count (st (initial_world (initial_state input it img role) d))"
    and r': "revision_count (st (initial_world (initial_state input it img role) d)) \<le> 1"
    by (simp_all add: initial_world_def z)
  show "revision_bounded (fst (satyamitra_brain env (initial_state input it img role) d))"
    unfolding satyamitra_brain_def by (rule run_graph_revision_bounded [OF r r'])
  note s = run_graph_start [OF r, of 17 env]
  show "researcher_runs (fst (satyamitra_brain env (initial_state input it img role) d)) \<le> 2"
    unfolding satyamitra_brain_def recursion_limit_Suc by (rule s [THEN conjunct1])
  show "result_error (snd (satyamitra_brain env (initial_state input it img role) d))
     \<noteq> Some GraphRecursionError"
    unfolding satyamitra_brain_def recursion_limit_Suc by (rule s [THEN conjunct2])
qed

theorem revision_count_at_most_one_witness:
  "map (\<lambda>p. (fst p, revision_count (st (snd p))))
     (fst (satyamitra_brain rejecting_env
        (initial_state ''The moon landing was faked'' ''text'' None ''standard'') empty_db))
     = [(Start, 0), (PreProcessor, 0), (Researcher, 0), (Skeptic, 1), (Researcher, 1),
        (Skeptic, 1), (Reporter, 1)] \<and>
   revision_bounded
     (fst (satyamitra_brain rejecting_env
        (initial_state ''The moon landing was faked'' ''text'' None ''standard'') empty_db)) \<and>
   researcher_runs
     (fst (satyamitra_brain rejecting_env
        (initial_state ''The moon landing was faked'' ''text'' None ''standard'') empty_db)) = 2 \<and>
   finished
     (snd (satyamitra_brain rejecting_env
        (initial_state ''The moon landing was faked'' ''text'' None ''standard'') empty_db))"
proof -
  have a: "map (\<lambda>p. (fst p, revision_count (st (snd p))))
     (fst (satyamitra_brain rejecting_env
        (initial_state ''The moon landing was faked'' ''text'' None ''standard'') empty_db))
     = [(Start, 0), (PreProcessor, 0), (Researcher, 0), (Skeptic, 1), (Researcher, 1),
        (Skeptic, 1), (Reporter, 1)]"
    by code_simp
  have b: "revision_bounded
     (fst (satyamitra_brain rejecting_env
        (initial_state ''The moon landing was faked'' ''text'' None ''standard'') empty_db))"
    by (rule revision_count_at_most_one [THEN conjunct2, THEN conjunct1])
  have c: "researcher_runs
     (fst (satyamitra_brain rejecting_env
        (initial_state ''The moon landing was faked'' ''text'' None ''standard'') empty_db)) = 2"
    by code_simp
  have d: "finished
     (snd (satyamitra_brain rejecting_env
        (initial_state ''The moon landing was faked'' ''text'' None ''standard'') empty_db))"
    by code_simp
  show ?thesis
    by (intro conjI a b c d)
qed

end
